theory Spec2Isabelle
  imports Main
begin

section \<open>Python values, exceptions and dictionaries\<close>

text \<open>
  The step module of stimela (\<^verbatim>\<open>stimela/kitchen/step.py\<close>) works on dynamically typed
  values: configuration trees (nested dictionaries with scalar leaves), parameter
  dictionaries whose values may be error objects or unresolved placeholders, and strings.
  One datatype holds them. A dictionary is the list of its items in insertion order;
  \<open>map_of\<close> is the lookup.
\<close>

datatype pyval =
    NoneV
  | BoolV bool
  | IntV int
  | StrV string
  | ListV "pyval list"
  | DictV "(string \<times> pyval) list"
  | ErrorV string
  | UnresolvedV string

type_synonym pydict = "(string \<times> pyval) list"

text \<open>
  Exceptions are values. \<open>StepValidationError\<close> records what its call sites pass: the
  message, the wrapped exception if any, and whether a logger was handed over
  (\<^verbatim>\<open>log=self.log\<close>). \<open>SubstitutionErrorList\<close> and \<open>ScabhaError\<close> stand for the
  exceptions of the validation engine, with their \<^verbatim>\<open>logged\<close> flag; \<open>OmegaConfError\<close> for
  \<^verbatim>\<open>OmegaConfBaseException\<close>; \<open>OtherError\<close> for any other exception a collaborator
  raises.
\<close>

datatype exc =
    StepValidationError string "exc option" bool
  | NameError string
  | TypeError string
  | KeyError string
  | AttributeError string
  | RuntimeError string
  | SubstitutionErrorList "string list" bool
  | ScabhaError string bool
  | OmegaConfError string
  | OtherError string

text \<open>
  Python truthiness (\<^verbatim>\<open>bool(x)\<close>, \<^verbatim>\<open>if x\<close>, \<^verbatim>\<open>not x\<close>). An error value is a string
  marked as an error (\<^verbatim>\<open>scabha.exceptions.Error\<close> is a subclass of \<^verbatim>\<open>str\<close>), so it is
  false when it is empty, and it is searched and indexed as a string is.
\<close>

fun truthy :: "pyval \<Rightarrow> bool" where
  "truthy NoneV = False"
| "truthy (BoolV b) = b"
| "truthy (IntV i) = (i \<noteq> 0)"
| "truthy (StrV s) = (s \<noteq> [])"
| "truthy (ListV xs) = (xs \<noteq> [])"
| "truthy (DictV kvs) = (kvs \<noteq> [])"
| "truthy (ErrorV m) = (m \<noteq> [])"
| "truthy (UnresolvedV m) = True"

definition quote :: "string \<Rightarrow> string" where
  "quote s = CHR 0x27 # s @ [CHR 0x27]"

fun type_name :: "pyval \<Rightarrow> string" where
  "type_name NoneV = ''NoneType''"
| "type_name (BoolV b) = ''bool''"
| "type_name (IntV i) = ''int''"
| "type_name (StrV s) = ''str''"
| "type_name (ListV xs) = ''list''"
| "type_name (DictV kvs) = ''dict''"
| "type_name (ErrorV m) = ''Error''"
| "type_name (UnresolvedV m) = ''Unresolved''"

text \<open>\<^verbatim>\<open>sub in s\<close> for two strings: \<open>sub\<close> occurs in \<open>s\<close> as a contiguous piece.\<close>

fun str_contains :: "string \<Rightarrow> string \<Rightarrow> bool" where
  "str_contains [] sub = (sub = [])"
| "str_contains (c # cs) sub = (take (length sub) (c # cs) = sub \<or> str_contains cs sub)"

text \<open>
  \<^verbatim>\<open>element in section\<close> and \<^verbatim>\<open>section[element]\<close> for a string \<open>element\<close>. On a
  dictionary they test and read a key; on a string the first is the substring test and
  the second raises; on a list the first is membership; everything else raises
  \<^verbatim>\<open>TypeError\<close>.
\<close>

fun py_contains :: "pyval \<Rightarrow> string \<Rightarrow> exc + bool" where
  "py_contains (DictV kvs) k = Inr (map_of kvs k \<noteq> None)"
| "py_contains (StrV s) k = Inr (str_contains s k)"
| "py_contains (ErrorV s) k = Inr (str_contains s k)"
| "py_contains (ListV xs) k = Inr (StrV k \<in> set xs)"
| "py_contains v k = Inl (TypeError (''argument of type '' @ quote (type_name v) @ '' is not iterable''))"

fun py_getitem :: "pyval \<Rightarrow> string \<Rightarrow> exc + pyval" where
  "py_getitem (DictV kvs) k = (case map_of kvs k of Some v \<Rightarrow> Inr v | None \<Rightarrow> Inl (KeyError k))"
| "py_getitem (StrV s) k = Inl (TypeError ''string indices must be integers'')"
| "py_getitem (ErrorV s) k = Inl (TypeError ''string indices must be integers'')"
| "py_getitem (ListV xs) k = Inl (TypeError ''list indices must be integers or slices, not str'')"
| "py_getitem v k = Inl (TypeError (quote (type_name v) @ '' object is not subscriptable''))"

text \<open>\<^verbatim>\<open>key.split(sep)\<close> with a one-character separator: never the empty list.\<close>

fun str_split :: "char \<Rightarrow> string \<Rightarrow> string list" where
  "str_split sep [] = [[]]"
| "str_split sep (c # cs) =
     (if c = sep then [] # str_split sep cs
      else (case str_split sep cs of [] \<Rightarrow> [[c]] | w # ws \<Rightarrow> (c # w) # ws))"

section \<open>Dotted-reference resolution\<close>

text \<open>
  \<^verbatim>\<open>resolve_dotted_reference(key, base, current, context)\<close>. The loop over
  \<^verbatim>\<open>path[:-1]\<close> is \<open>walk_sections\<close>; it carries the section reached so far.
\<close>

fun walk_sections :: "string \<Rightarrow> string \<Rightarrow> pyval \<Rightarrow> string list \<Rightarrow> exc + pyval" where
  "walk_sections context key section [] = Inr section"
| "walk_sections context key section (element # rest) =
     (if element = [] then Inl (NameError (context @ '': '..' not permitted''))
      else (case py_contains section element of
              Inl e \<Rightarrow> Inl e
            | Inr True \<Rightarrow>
                (case py_getitem section element of
                   Inl e \<Rightarrow> Inl e
                 | Inr sub \<Rightarrow> walk_sections context key sub rest)
            | Inr False \<Rightarrow>
                Inl (NameError (context @ '': '' @ quote element @ '' in '' @ quote key
                                  @ '' is not a valid config section''))))"

definition resolve_dotted_reference ::
  "string \<Rightarrow> pyval \<Rightarrow> pyval \<Rightarrow> string \<Rightarrow> exc + (pyval \<times> string)" where
  "resolve_dotted_reference key base current context =
     (case str_split CHR ''.'' key of
        [] \<Rightarrow> Inl (OtherError ''IndexError'')
      | first # others \<Rightarrow>
          if first \<noteq> [] then
            (case walk_sections context key base (butlast (first # others)) of
               Inl e \<Rightarrow> Inl e
             | Inr section \<Rightarrow> Inr (section, last (first # others)))
          else if \<not> truthy current then
            Inl (NameError (context @ '': leading '.' not permitted here''))
          else if others = [] then
            Inl (NameError (context @ '': '.' not permitted''))
          else
            (case walk_sections context key current (butlast others) of
               Inl e \<Rightarrow> Inl e
             | Inr section \<Rightarrow> Inr (section, last others)))"

section \<open>Dictionaries, formatting\<close>

text \<open>
  \<^verbatim>\<open>d[k] = v\<close>: an existing key keeps its place, a new key goes to the end.
  \<^verbatim>\<open>d.update(**other)\<close> stores the items of \<open>other\<close> one after the other.
\<close>

fun dict_setitem :: "string \<Rightarrow> 'v \<Rightarrow> (string \<times> 'v) list \<Rightarrow> (string \<times> 'v) list" where
  "dict_setitem k v [] = [(k, v)]"
| "dict_setitem k v ((k', v') # kvs) =
     (if k' = k then (k, v) # kvs else (k', v') # dict_setitem k v kvs)"

fun dict_update :: "(string \<times> 'v) list \<Rightarrow> (string \<times> 'v) list \<Rightarrow> (string \<times> 'v) list" where
  "dict_update d [] = d"
| "dict_update d ((k, v) # other) = dict_update (dict_setitem k v d) other"

definition dict_has :: "(string \<times> 'v) list \<Rightarrow> string \<Rightarrow> bool" where
  "dict_has d k = (map_of d k \<noteq> None)"

text \<open>\<^verbatim>\<open>sep.join(words)\<close>.\<close>

fun str_join :: "string \<Rightarrow> string list \<Rightarrow> string" where
  "str_join sep [] = []"
| "str_join sep [w] = w"
| "str_join sep (w # ws) = w @ sep @ str_join sep ws"

text \<open>
  Modelled from the spec: \<^verbatim>\<open>join_quote\<close> is imported from \<^verbatim>\<open>scabha.validate\<close>, which is
  not part of the sources at hand. The specification describes its result as the offending
  parameter list, quoted and comma-joined.
\<close>

definition join_quote :: "string list \<Rightarrow> string" where
  "join_quote names = str_join '', '' (map quote names)"

text \<open>Decimal rendering of a length, as an f-string prints it.\<close>

fun show_nat :: "nat \<Rightarrow> string" where
  "show_nat n =
     (if n < 10 then [char_of (48 + n)] else show_nat (n div 10) @ [char_of (48 + n mod 10)])"

declare show_nat.simps [simp del]

section \<open>Steps, cargo, and the state they live in\<close>

text \<open>
  The cargo of a step is an object: a \<^verbatim>\<open>Cab\<close>, a \<^verbatim>\<open>Recipe\<close>, or (for the last branch of
  the dispatch) something else. Both classes are defined outside \<^verbatim>\<open>step.py\<close>; the record
  holds the attributes that \<^verbatim>\<open>step.py\<close> reads or writes, and \<open>definition_of\<close> keeps
  the configuration the object was built from.
\<close>

datatype cargo_kind = Cab | Recipe | Other

record schema =
  required :: bool
  default_val :: pyval

record cargo_obj =
  kind :: cargo_kind
  cargo_name :: string
  cargo_backend :: pyval
  inputs :: "(string \<times> schema) list"
  outputs :: "(string \<times> schema) list"
  inputs_outputs :: "(string \<times> schema) list"
  cargo_defaults :: pydict
  definition_of :: pyval

text \<open>
  The \<^verbatim>\<open>recipe\<close> field of a step is typed \<^verbatim>\<open>Optional[Any]\<close>: a name, a configuration
  section, \<^verbatim>\<open>None\<close> or any other plain value (\<open>RecipeData\<close>), or a \<^verbatim>\<open>Recipe\<close> object,
  given by its address. A \<open>DictV\<close> in this field is a \<^verbatim>\<open>DictConfig\<close>.
\<close>

datatype recipe_val = RecipeData pyval | RecipeObj nat

fun recipe_truthy :: "recipe_val \<Rightarrow> bool" where
  "recipe_truthy (RecipeData v) = truthy v"
| "recipe_truthy (RecipeObj a) = True"

text \<open>
  The dataclass \<^verbatim>\<open>Step\<close>, with the attributes that \<^verbatim>\<open>__post_init__\<close> and
  \<^verbatim>\<open>finalize\<close> add (\<^verbatim>\<open>cargo\<close>, \<^verbatim>\<open>config\<close>, \<^verbatim>\<open>validated_params\<close>, \<^verbatim>\<open>_skip\<close> as
  \<open>skip_preset\<close>, \<^verbatim>\<open>defaults\<close>). \<^verbatim>\<open>None\<close> is \<open>None\<close> for the optional fields and
  \<open>NoneV\<close> for \<^verbatim>\<open>backend\<close>. The cargo is the address of its object.
\<close>

record step =
  cab :: "string option"
  recipe :: recipe_val
  params :: pydict
  info :: "string option"
  skip :: "string option"
  tags :: "string list"
  backend :: pyval
  name :: string
  fqname :: string
  assign :: pydict
  assign_based_on :: pydict
  runtime :: pydict
  cargo :: "nat option"
  config :: pyval
  validated_params :: "pydict option"
  skip_preset :: "bool option"
  defaults :: pydict

text \<open>
  The state outside the step: the objects by address (\<open>next_addr\<close> is the first address
  not yet given out), the class attribute \<^verbatim>\<open>Step._instantiated_cabs\<close>, what was logged,
  the calls made to the substitution engine and to the runners, and the stack of open
  subtasks of \<^verbatim>\<open>stimelogging.declare_subtask\<close>.
\<close>

datatype level = DEBUG | INFO | WARNING | ERROR

datatype call =
    EvaluateAndSubstitute pydict
  | RunCab pydict pyval
  | RecipeRun pydict

record world =
  heap :: "nat \<Rightarrow> cargo_obj"
  next_addr :: nat
  instantiated_cabs :: "(string \<times> nat) list"
  log :: "(level \<times> string) list"
  calls :: "call list"
  subtasks :: "string list"

text \<open>
  The substitution namespace handed to \<^verbatim>\<open>run\<close>: its \<^verbatim>\<open>current\<close> scope and the rest.
  \<^verbatim>\<open>prevalidate\<close> receives a namespace, nothing, or (from \<^verbatim>\<open>run\<close>) the raw parameter
  dictionary.
\<close>

record subst_ns =
  current :: pydict
  bindings :: pydict

datatype subst_arg = NoSubst | Namespace subst_ns | PlainDict pydict

datatype logger = NoLogger | GivenLogger string | ChildLogger string

text \<open>
  The collaborators of the step, which live outside \<^verbatim>\<open>step.py\<close>, are parameters: the
  global configuration \<^verbatim>\<open>stimela.CONFIG\<close>, the constructors of \<^verbatim>\<open>Cab\<close> and \<^verbatim>\<open>Recipe\<close>,
  the methods of the cargo, the substitution engine, the two runners, and the formatting
  of summaries and namespaces for the log. A collaborator that can raise returns a sum.
  The runners return the parameter dictionary as they leave it.
\<close>

record env =
  global_config :: pyval
  make_cab :: "pyval \<Rightarrow> exc + cargo_obj"
  make_recipe :: "pyval \<Rightarrow> exc + cargo_obj"
  flatten_param_dict :: "cargo_obj \<Rightarrow> pydict \<Rightarrow> pydict \<Rightarrow> exc + pydict"
  cargo_finalize :: "cargo_obj \<Rightarrow> pyval \<Rightarrow> logger \<Rightarrow> pyval \<Rightarrow> string \<Rightarrow> nat \<Rightarrow> exc + cargo_obj"
  cargo_prevalidate :: "cargo_obj \<Rightarrow> pydict \<Rightarrow> subst_arg \<Rightarrow> bool \<Rightarrow> exc + pydict"
  validate_inputs :: "cargo_obj \<Rightarrow> pydict \<Rightarrow> pyval \<Rightarrow> subst_ns option \<Rightarrow> exc + pydict"
  validate_outputs :: "cargo_obj \<Rightarrow> pydict \<Rightarrow> pyval \<Rightarrow> subst_ns option \<Rightarrow> exc + pydict"
  evaluate_and_substitute ::
    "pydict \<Rightarrow> subst_ns \<Rightarrow> pydict \<Rightarrow> string list \<Rightarrow> bool \<Rightarrow> exc + pydict"
  run_cab :: "step \<Rightarrow> pydict \<Rightarrow> pyval \<Rightarrow> subst_ns option \<Rightarrow> pyval \<Rightarrow> exc + pydict"
  recipe_run :: "cargo_obj \<Rightarrow> pydict \<Rightarrow> exc + pydict"
  cargo_summary :: "cargo_obj \<Rightarrow> bool \<Rightarrow> pydict \<Rightarrow> bool \<Rightarrow> string list"
  log_enabled :: "level \<Rightarrow> bool"
  show_keys :: "subst_ns option \<Rightarrow> string"

definition log_msg :: "level \<Rightarrow> string \<Rightarrow> world \<Rightarrow> world" where
  "log_msg lvl msg w = w\<lparr>log := log w @ [(lvl, msg)]\<rparr>"

definition log_lines :: "level \<Rightarrow> string list \<Rightarrow> world \<Rightarrow> world" where
  "log_lines lvl msgs w = w\<lparr>log := log w @ map (Pair lvl) msgs\<rparr>"

section \<open>Construction\<close>

text \<open>
  \<^verbatim>\<open>Step.__post_init__\<close>, applied to the record of the constructor's arguments. The
  message of its error is a plain string literal in the source, not an f-string, and is
  taken over character by character. Converting \<^verbatim>\<open>params\<close> from a \<^verbatim>\<open>DictConfig\<close> to a
  plain dictionary does not change the model's dictionary; \<^verbatim>\<open>set(self.tags)\<close> drops
  repeated tags.
\<close>

definition str_truthy :: "string option \<Rightarrow> bool" where
  "str_truthy s = (case s of None \<Rightarrow> False | Some t \<Rightarrow> t \<noteq> [])"

definition post_init :: "step \<Rightarrow> exc + step" where
  "post_init self0 =
     (let self = self0\<lparr>fqname := (if fqname self0 \<noteq> [] then fqname self0 else name self0)\<rparr>
      in if str_truthy (cab self) = recipe_truthy (recipe self) then
           Inl (StepValidationError
                  ''step '{self.name}': step must specify either a cab or a nested recipe, but not both''
                  None False)
         else
           Inr (self\<lparr>cargo := None, config := NoneV, tags := remdups (tags self),
                     validated_params := None,
                     skip_preset :=
                       (if skip self \<in> {Some ''True'', Some ''true'', Some ''1''} then Some True
                        else if skip self \<in> {Some ''False'', Some ''false'', Some ''0'', Some '''', None}
                        then Some False
                        else None)\<rparr>))"

text \<open>The property \<^verbatim>\<open>finalized\<close>.\<close>

definition finalized :: "step \<Rightarrow> bool" where
  "finalized self = (cargo self \<noteq> None)"

text \<open>
  The properties \<^verbatim>\<open>missing_params\<close>, \<^verbatim>\<open>invalid_params\<close> and \<^verbatim>\<open>unresolved_params\<close> read
  \<^verbatim>\<open>self.validated_params\<close> and the cargo; they are functions of these two. An invalid
  value is an instance of \<^verbatim>\<open>scabha.exceptions.Error\<close>, an unresolved one an instance of
  \<^verbatim>\<open>Unresolved\<close>.
\<close>

fun is_error :: "pyval \<Rightarrow> bool" where
  "is_error (ErrorV m) = True"
| "is_error v = False"

fun is_unresolved :: "pyval \<Rightarrow> bool" where
  "is_unresolved (UnresolvedV m) = True"
| "is_unresolved v = False"

definition missing_params :: "cargo_obj \<Rightarrow> pydict \<Rightarrow> (string \<times> schema) list" where
  "missing_params cg vp = filter (\<lambda>(n, sch). required sch \<and> \<not> dict_has vp n) (inputs_outputs cg)"

definition invalid_params :: "pydict \<Rightarrow> string list" where
  "invalid_params vp = map fst (filter (\<lambda>(n, v). is_error v) vp)"

definition unresolved_params :: "pydict \<Rightarrow> string list" where
  "unresolved_params vp = map fst (filter (\<lambda>(n, v). is_unresolved v) vp)"

section \<open>Binding the cargo: finalize\<close>

text \<open>Attribute access on a configuration section (\<^verbatim>\<open>config.lib\<close>, \<^verbatim>\<open>config.cabs\<close>).\<close>

definition py_getattr :: "pyval \<Rightarrow> string \<Rightarrow> exc + pyval" where
  "py_getattr v k =
     (case v of
        DictV kvs \<Rightarrow> (case map_of kvs k of Some x \<Rightarrow> Inr x | None \<Rightarrow> Inl (AttributeError k))
      | _ \<Rightarrow> Inl (AttributeError k))"

definition allocate :: "cargo_obj \<Rightarrow> world \<Rightarrow> nat \<times> world" where
  "allocate obj w = (next_addr w, w\<lparr>heap := (heap w)(next_addr w := obj), next_addr := Suc (next_addr w)\<rparr>)"

text \<open>\<^verbatim>\<open>cargo.name = n\<close> for the cargo at address \<open>a\<close>.\<close>

definition set_cargo_name :: "nat \<Rightarrow> string \<Rightarrow> world \<Rightarrow> world" where
  "set_cargo_name a n w = w\<lparr>heap := (heap w)(a := (heap w a)\<lparr>cargo_name := n\<rparr>)\<rparr>"

text \<open>
  A recipe given by name: an undotted name is looked up in \<^verbatim>\<open>config.lib.recipes\<close>, a
  dotted one is resolved against the configuration.
\<close>

definition lookup_recipe :: "step \<Rightarrow> pyval \<Rightarrow> string \<Rightarrow> exc + pyval" where
  "lookup_recipe self cfg r =
     (if CHR ''.'' \<notin> set r then
        (case py_getattr cfg ''lib'' of
           Inl e \<Rightarrow> Inl e
         | Inr lib \<Rightarrow>
             (case py_getattr lib ''recipes'' of
                Inl e \<Rightarrow> Inl e
              | Inr recipes \<Rightarrow>
                  (case py_contains recipes r of
                     Inl e \<Rightarrow> Inl e
                   | Inr False \<Rightarrow>
                       Inl (StepValidationError
                              (''step '' @ quote (name self) @ '': '' @ quote r
                                 @ '' not found in lib.recipes'') None False)
                   | Inr True \<Rightarrow> py_getitem recipes r)))
      else
        (case resolve_dotted_reference r cfg NoneV (''step '' @ quote (name self)) of
           Inl e \<Rightarrow> Inl e
         | Inr (section, var) \<Rightarrow>
             (case py_contains section var of
                Inl e \<Rightarrow> Inl e
              | Inr False \<Rightarrow>
                  Inl (StepValidationError
                         (''step '' @ quote (name self) @ '': '' @ quote r @ '' not found'')
                         None False)
              | Inr True \<Rightarrow> py_getitem section var)))"

fun kind_name :: "cargo_kind \<Rightarrow> string" where
  "kind_name Cab = ''Cab''"
| "kind_name Recipe = ''Recipe''"
| "kind_name Other = ''object''"

text \<open>
  The recipe branch of \<^verbatim>\<open>finalize\<close>. It returns the address of the cargo it has bound.
  The message of the instantiation error has an opening quote only, as in the source.
\<close>

definition bind_recipe :: "env \<Rightarrow> step \<Rightarrow> pyval \<Rightarrow> world \<Rightarrow> (exc + nat) \<times> step \<times> world" where
  "bind_recipe env self cfg w =
     (case (case recipe self of
              RecipeData (StrV r) \<Rightarrow>
                (case lookup_recipe self cfg r of
                   Inl e \<Rightarrow> Inl e
                 | Inr v \<Rightarrow> Inr (''nested recipe '' @ quote r, RecipeData v))
            | rv \<Rightarrow> Inr (''nested recipe'', rv)) of
        Inl e \<Rightarrow> (Inl e, self, w)
      | Inr (recipe_name, rv) \<Rightarrow>
          (let self1 = self\<lparr>recipe := rv\<rparr> in
           case rv of
             RecipeData (DictV kvs) \<Rightarrow>
               (case make_recipe env (DictV kvs) of
                  Inl (OmegaConfError m) \<Rightarrow>
                    (Inl (StepValidationError
                            (''step '' @ quote (name self) @ '': error in recipe '' @ [CHR 0x27]
                               @ recipe_name)
                            (Some (OmegaConfError m)) False), self1, w)
                | Inl e \<Rightarrow> (Inl e, self1, w)
                | Inr obj \<Rightarrow>
                    (case allocate (obj\<lparr>kind := Recipe\<rparr>) w of
                       (a, w1) \<Rightarrow> (Inr a, self1\<lparr>recipe := RecipeObj a, cargo := Some a\<rparr>, w1)))
           | RecipeData v \<Rightarrow>
               (Inl (StepValidationError
                       (''step '' @ quote (name self)
                          @ '': recipe field must be a string or a nested recipe, found <class ''
                          @ quote (type_name v) @ ''>'') None False), self1, w)
           | RecipeObj a \<Rightarrow>
               (if kind (heap w a) = Recipe then (Inr a, self1\<lparr>cargo := Some a\<rparr>, w)
                else (Inl (StepValidationError
                             (''step '' @ quote (name self)
                                @ '': recipe field must be a string or a nested recipe, found <class ''
                                @ quote (kind_name (kind (heap w a))) @ ''>'') None False),
                      self1, w))))"

text \<open>
  The cab branch: a cached cab is copied (\<^verbatim>\<open>copy.copy\<close>) to a new address; otherwise the
  cab is built from \<^verbatim>\<open>config.cabs\<close>, and the new object is both the step's cargo and the
  cache entry.
\<close>

definition bind_cab :: "env \<Rightarrow> step \<Rightarrow> pyval \<Rightarrow> world \<Rightarrow> (exc + nat) \<times> step \<times> world" where
  "bind_cab env self cfg w =
     (case (case cab self of None \<Rightarrow> None | Some c \<Rightarrow> map_of (instantiated_cabs w) c) of
        Some cached \<Rightarrow>
          (case allocate (heap w cached) w of (a, w1) \<Rightarrow> (Inr a, self\<lparr>cargo := Some a\<rparr>, w1))
      | None \<Rightarrow>
          (case py_getattr cfg ''cabs'' of
             Inl e \<Rightarrow> (Inl e, self, w)
           | Inr cabs \<Rightarrow>
               (case cab self of
                  None \<Rightarrow>
                    (Inl (StepValidationError
                            (''step '' @ quote (name self) @ '': unknown cab None'') None False),
                     self, w)
                | Some c \<Rightarrow>
                    (case py_contains cabs c of
                       Inl e \<Rightarrow> (Inl e, self, w)
                     | Inr False \<Rightarrow>
                         (Inl (StepValidationError
                                 (''step '' @ quote (name self) @ '': unknown cab '' @ c) None False),
                          self, w)
                     | Inr True \<Rightarrow>
                         (case (case py_getitem cabs c of Inl e \<Rightarrow> Inl e
                                | Inr d \<Rightarrow> make_cab env d) of
                            Inl e \<Rightarrow>
                              (Inl (StepValidationError
                                      (''step '' @ quote (name self) @ '': error in cab '' @ quote c)
                                      (Some e) False), self, w)
                          | Inr obj \<Rightarrow>
                              (case allocate (obj\<lparr>kind := Cab\<rparr>) w of
                                 (a, w1) \<Rightarrow>
                                   (Inr a, self\<lparr>cargo := Some a\<rparr>,
                                    w1\<lparr>instantiated_cabs :=
                                         dict_setitem c a (instantiated_cabs w1)\<rparr>)))))))"

text \<open>
  The dictionary of defaults: the schema entries whose default is neither \<^verbatim>\<open>None\<close> nor
  unresolved, then \<^verbatim>\<open>update\<close> with the cargo's own defaults.
\<close>

definition schema_defaults :: "(string \<times> schema) list \<Rightarrow> pydict" where
  "schema_defaults io =
     dict_update []
       (map (\<lambda>(n, sch). (n, default_val sch))
          (filter (\<lambda>(n, sch). default_val sch \<noteq> NoneV \<and> \<not> is_unresolved (default_val sch)) io))"

text \<open>The loop that sets the parameters missing from \<^verbatim>\<open>self.params\<close>.\<close>

fun set_missing :: "pydict \<Rightarrow> pydict \<Rightarrow> pydict" where
  "set_missing ps [] = ps"
| "set_missing ps ((n, v) # ds) =
     set_missing (if dict_has ps n then ps else dict_setitem n v ps) ds"

text \<open>
  What \<^verbatim>\<open>finalize\<close> does once the cargo is bound at address \<open>a\<close>: name it, flatten the
  parameters, finalize the cargo, merge the defaults.
\<close>

definition finish_finalize ::
  "env \<Rightarrow> step \<Rightarrow> nat \<Rightarrow> pyval \<Rightarrow> logger \<Rightarrow> pyval \<Rightarrow> nat \<Rightarrow> world \<Rightarrow> (exc + unit) \<times> step \<times> world" where
  "finish_finalize env self a cfg log_arg logopts nesting w =
     (let w1 = set_cargo_name a (name self) w in
      case flatten_param_dict env (heap w1 a) [] (params self) of
        Inl e \<Rightarrow> (Inl e, self, w1)
      | Inr flat \<Rightarrow>
          (let self1 = self\<lparr>params := flat\<rparr>;
               lg = (case log_arg of NoLogger \<Rightarrow> ChildLogger (fqname self1) | l \<Rightarrow> l)
           in case cargo_finalize env (heap w1 a) cfg lg logopts (fqname self1) nesting of
                Inl e \<Rightarrow> (Inl e, self1, w1)
              | Inr obj \<Rightarrow>
                  (let w2 = w1\<lparr>heap := (heap w1)(a := obj)\<rparr>;
                       ds = dict_update (schema_defaults (inputs_outputs obj)) (cargo_defaults obj)
                   in (Inr (), self1\<lparr>defaults := ds, params := set_missing flat ds\<rparr>, w2))))"

text \<open>
  \<^verbatim>\<open>Step.finalize(config, log, logopts, fqname, nesting)\<close>. \<^verbatim>\<open>None\<close> is \<open>NoneV\<close>,
  \<open>NoLogger\<close> and \<open>None\<close> for the three optional arguments.
\<close>

definition finalize ::
  "env \<Rightarrow> step \<Rightarrow> pyval \<Rightarrow> logger \<Rightarrow> pyval \<Rightarrow> string option \<Rightarrow> nat \<Rightarrow> world
     \<Rightarrow> (exc + unit) \<times> step \<times> world" where
  "finalize env self0 config_arg log_arg logopts fqname_arg nesting w0 =
     (if finalized self0 then (Inr (), self0, w0)
      else
        (let self1 = (case fqname_arg of None \<Rightarrow> self0 | Some f \<Rightarrow> self0\<lparr>fqname := f\<rparr>);
             cfg = (if truthy config_arg then config_arg else global_config env);
             self2 = self1\<lparr>config := cfg\<rparr>
         in case (if recipe_truthy (recipe self2) then bind_recipe env self2 cfg w0
                  else bind_cab env self2 cfg w0) of
              (Inl e, self3, w1) \<Rightarrow> (Inl e, self3, w1)
            | (Inr a, self3, w1) \<Rightarrow> finish_finalize env self3 a cfg log_arg logopts nesting w1))"

section \<open>Prevalidation\<close>

text \<open>
  \<^verbatim>\<open>Step.prevalidate(subst, root)\<close>: finalize with no arguments, let the cargo prevalidate
  the parameters, keep the result in \<^verbatim>\<open>validated_params\<close>, log the counts, and raise if
  a parameter is invalid.
\<close>

definition prevalidate ::
  "env \<Rightarrow> step \<Rightarrow> subst_arg \<Rightarrow> bool \<Rightarrow> world \<Rightarrow> (exc + pydict) \<times> step \<times> world" where
  "prevalidate env self subst root w =
     (case finalize env self NoneV NoLogger NoneV None 0 w of
        (Inl e, self1, w1) \<Rightarrow> (Inl e, self1, w1)
      | (Inr u, self1, w1) \<Rightarrow>
          (case cargo self1 of
             None \<Rightarrow> (Inl (AttributeError ''prevalidate''), self1, w1)
           | Some a \<Rightarrow>
               (case cargo_prevalidate env (heap w1 a) (params self1) subst root of
                  Inl e \<Rightarrow> (Inl e, self1, w1)
                | Inr vp \<Rightarrow>
                    (let self2 = self1\<lparr>validated_params := Some vp\<rparr>;
                         cg = heap w1 a;
                         w2 = log_msg DEBUG
                                (cargo_name cg @ '': '' @ show_nat (length (missing_params cg vp))
                                   @ '' missing, '' @ show_nat (length (invalid_params vp))
                                   @ '' invalid and '' @ show_nat (length (unresolved_params vp))
                                   @ '' unresolved parameters'') w1
                     in if invalid_params vp \<noteq> [] then
                          (Inl (StepValidationError
                                  (''step '' @ quote (name self2) @ '': '' @ cargo_name cg
                                     @ '' has the following invalid parameters: ''
                                     @ join_quote (invalid_params vp)) None False), self2, w2)
                        else (Inr vp, self2, w2)))))"

section \<open>Running a step\<close>

definition skip_value :: "step \<Rightarrow> pyval" where
  "skip_value self = (case skip_preset self of None \<Rightarrow> NoneV | Some b \<Rightarrow> BoolV b)"

definition opt_str :: "string option \<Rightarrow> string" where
  "opt_str s = (case s of None \<Rightarrow> ''None'' | Some t \<Rightarrow> t)"

text \<open>
  The skip attribute: the preset value, unless it is \<^verbatim>\<open>None\<close> and a namespace is given;
  then the expression goes through \<^verbatim>\<open>evaluate_and_substitute\<close>, and the call is recorded.
\<close>

definition eval_skip :: "env \<Rightarrow> step \<Rightarrow> subst_ns option \<Rightarrow> world \<Rightarrow> (exc + pyval) \<times> world" where
  "eval_skip env self subst w =
     (case (skip_preset self, subst) of
        (None, Some ns) \<Rightarrow>
          (let skips = [(''skip'', (case skip self of None \<Rightarrow> NoneV | Some s \<Rightarrow> StrV s))];
               w1 = w\<lparr>calls := calls w @ [EvaluateAndSubstitute skips]\<rparr>
           in case evaluate_and_substitute env skips ns (current ns) [fqname self] False of
                Inl e \<Rightarrow> (Inl e, w1)
              | Inr skips' \<Rightarrow>
                  (case map_of skips' ''skip'' of
                     None \<Rightarrow> (Inl (KeyError ''skip''), w1)
                   | Some v \<Rightarrow> (Inr v, w1)))
      | _ \<Rightarrow> (Inr (skip_value self), w))"

text \<open>
  \<^verbatim>\<open>log_summary\<close>, with \<^verbatim>\<open>summary\<close> inlined: the parameters summarised are
  \<^verbatim>\<open>self.validated_params or self.params\<close>.
\<close>

definition summary_params :: "step \<Rightarrow> pydict" where
  "summary_params self =
     (case validated_params self of
        None \<Rightarrow> params self
      | Some vp \<Rightarrow> if vp \<noteq> [] then vp else params self)"

definition log_summary :: "env \<Rightarrow> step \<Rightarrow> cargo_obj \<Rightarrow> level \<Rightarrow> string \<Rightarrow> bool \<Rightarrow> world \<Rightarrow> world" where
  "log_summary env self cg lvl title ignore_missing w =
     (if log_enabled env lvl then
        log_lines lvl (cargo_summary env cg False (summary_params self) ignore_missing)
          (log_msg lvl (''### '' @ title) w)
      else w)"

text \<open>
  The handlers of \<^verbatim>\<open>run\<close> catch \<^verbatim>\<open>ScabhaBaseException\<close>. An exception of a collaborator
  that is one is a \<open>SubstitutionErrorList\<close> or a \<open>ScabhaError\<close>; the other constructors
  stand for exceptions the handlers let through. An exception not yet logged is logged
  and marked.
\<close>

fun is_scabha :: "exc \<Rightarrow> bool" where
  "is_scabha (SubstitutionErrorList errs logged) = True"
| "is_scabha (ScabhaError m logged) = True"
| "is_scabha e = False"

fun log_validation_error :: "string \<Rightarrow> level \<Rightarrow> exc \<Rightarrow> world \<Rightarrow> exc \<times> world" where
  "log_validation_error what lvl (SubstitutionErrorList errs logged) w =
     (if logged then (SubstitutionErrorList errs logged, w)
      else (SubstitutionErrorList errs True,
            log_lines lvl (map (\<lambda>err. ''  '' @ err) errs)
              (log_msg lvl ''unresolved {}-substitution(s):'' w)))"
| "log_validation_error what lvl (ScabhaError m logged) w =
     (if logged then (ScabhaError m logged, w)
      else (ScabhaError m True, log_msg lvl (''error validating '' @ what @ '': '' @ m) w))"
| "log_validation_error what lvl e w = (e, w)"

text \<open>
  Input validation with its handler. The result is the parameters, \<^verbatim>\<open>validated\<close> and
  \<^verbatim>\<open>skip_warned\<close>. The level of the messages follows the evaluated \<^verbatim>\<open>skip\<close>; whether
  the exception is raised again follows the attribute \<^verbatim>\<open>self.skip\<close>.
\<close>

definition validate_inputs_phase ::
  "env \<Rightarrow> step \<Rightarrow> cargo_obj \<Rightarrow> pyval \<Rightarrow> subst_ns option \<Rightarrow> pydict \<Rightarrow> world
     \<Rightarrow> (exc + (pydict \<times> bool \<times> bool)) \<times> world" where
  "validate_inputs_phase env self cg skp subst ps w =
     (case validate_inputs env cg ps skp subst of
        Inr ps' \<Rightarrow> (Inr (ps', True, False), w)
      | Inl e \<Rightarrow>
          if is_scabha e then
            (let lvl = (if truthy skp then WARNING else ERROR) in
             case log_validation_error ''inputs'' lvl e w of
               (e', w1) \<Rightarrow>
                 (let w2 = log_summary env self cg lvl ''summary of inputs follows'' True w1 in
                  if str_truthy (skip self) then
                    (Inr (ps, False, True),
                     log_msg WARNING ''since the step is being skipped, this is not fatal'' w2)
                  else (Inl e', w2)))
          else (Inl e, w))"

text \<open>The check after input validation, on the updated \<^verbatim>\<open>validated_params\<close>.\<close>

definition check_inputs :: "step \<Rightarrow> pydict \<Rightarrow> bool \<Rightarrow> world \<Rightarrow> exc option \<times> world" where
  "check_inputs self vp skip_warned w =
     (if invalid_params vp \<noteq> [] \<or> unresolved_params vp \<noteq> [] then
        (let invalid = invalid_params vp @ unresolved_params vp in
         if str_truthy (skip self) then
           (let w1 = log_msg WARNING (''invalid inputs: '' @ join_quote invalid) w in
            (None, if skip_warned then w1
                   else log_msg WARNING ''since the step was skipped, this is not fatal'' w1))
         else
           (Some (StepValidationError
                    (''step '' @ quote (name self) @ '': invalid inputs: '' @ join_quote invalid)
                    None True), w))
      else (None, w))"

text \<open>
  The dispatch. The message of the last branch is a plain string literal in the source.
  \<^verbatim>\<open>stimela.CONFIG.opts.backend\<close> is read only when neither the step nor the cargo names
  a backend.
\<close>

definition default_backend :: "env \<Rightarrow> exc + pyval" where
  "default_backend env =
     (case py_getattr (global_config env) ''opts'' of
        Inl e \<Rightarrow> Inl e
      | Inr opts \<Rightarrow> py_getattr opts ''backend'')"

definition dispatch ::
  "env \<Rightarrow> step \<Rightarrow> cargo_obj \<Rightarrow> pyval \<Rightarrow> subst_ns option \<Rightarrow> pyval \<Rightarrow> pydict \<Rightarrow> world
     \<Rightarrow> (exc + pydict) \<times> world" where
  "dispatch env self cg skp subst batch ps w =
     (if \<not> truthy skp then
        (case kind cg of
           Recipe \<Rightarrow>
             (let w1 = w\<lparr>calls := calls w @ [RecipeRun ps]\<rparr> in
              case recipe_run env cg ps of Inl e \<Rightarrow> (Inl e, w1) | Inr ps' \<Rightarrow> (Inr ps', w1))
         | Cab \<Rightarrow>
             (case (if backend self \<noteq> NoneV then Inr (backend self)
                    else if cargo_backend cg \<noteq> NoneV then Inr (cargo_backend cg)
                    else default_backend env) of
                Inl e \<Rightarrow> (Inl e, w)
              | Inr b \<Rightarrow>
                  (let w1 = w\<lparr>calls := calls w @ [RunCab ps b]\<rparr> in
                   case run_cab env self ps b subst batch of
                     Inl e \<Rightarrow> (Inl e, w1)
                   | Inr ps' \<Rightarrow> (Inr ps', w1)))
         | Other \<Rightarrow> (Inl (RuntimeError ''step '{self.name}': unknown cargo type''), w))
      else
        (Inr ps,
         log_msg INFO
           (if skip_preset self = None \<and> subst \<noteq> None
            then ''skipping step based on setting of '' @ quote (opt_str (skip self))
            else ''skipping step based on explicit setting'') w))"

text \<open>
  Output validation with its handler; the result is the parameters and \<^verbatim>\<open>validated\<close>.
  Here the level follows \<^verbatim>\<open>self.skip\<close> and the raising follows the evaluated \<^verbatim>\<open>skip\<close>.
\<close>

definition validate_outputs_phase ::
  "env \<Rightarrow> step \<Rightarrow> cargo_obj \<Rightarrow> pyval \<Rightarrow> subst_ns option \<Rightarrow> pydict \<Rightarrow> world
     \<Rightarrow> (exc + (pydict \<times> bool)) \<times> world" where
  "validate_outputs_phase env self cg skp subst ps w =
     (case validate_outputs env cg ps skp subst of
        Inr ps' \<Rightarrow> (Inr (ps', True), w)
      | Inl e \<Rightarrow>
          if is_scabha e then
            (let lvl = (if str_truthy (skip self) then WARNING else ERROR) in
             case log_validation_error ''outputs'' lvl e w of
               (e', w1) \<Rightarrow>
                 if truthy skp then
                   (Inr (ps, False),
                    log_msg WARNING ''since the step was skipped, this is not fatal'' w1)
                 else (Inl e', log_summary env self cg lvl ''failed outputs'' True w1))
          else (Inl e, w))"

text \<open>
  Modelled from the spec: \<^verbatim>\<open>subst.current._merge_(params)\<close> is a method of the namespace
  class of \<^verbatim>\<open>scabha.substitutions\<close>, which is not part of the sources at hand; the
  specification says that the validated outputs are merged into the namespace's current
  scope.
\<close>

definition merge_current :: "pydict \<Rightarrow> subst_ns \<Rightarrow> subst_ns" where
  "merge_current ps ns = ns\<lparr>current := dict_update (current ns) ps\<rparr>"

definition run_outputs ::
  "env \<Rightarrow> step \<Rightarrow> cargo_obj \<Rightarrow> pyval \<Rightarrow> subst_ns option \<Rightarrow> pydict \<Rightarrow> pydict \<Rightarrow> world
     \<Rightarrow> (exc + pydict) \<times> step \<times> subst_ns option \<times> world" where
  "run_outputs env self cg skp subst vp ps w =
     (case validate_outputs_phase env self cg skp subst ps (log_msg DEBUG ''validating outputs'' w) of
        (Inl e, w1) \<Rightarrow> (Inl e, self, subst, w1)
      | (Inr (ps1, validated), w1) \<Rightarrow>
          (let vp1 = (if validated then dict_update vp ps1 else vp);
               self1 = self\<lparr>validated_params := Some vp1\<rparr>;
               subst1 = (if validated then map_option (merge_current ps1) subst else subst);
               w2 = (if validated then log_summary env self1 cg DEBUG ''validated outputs'' True w1
                     else w1);
               invalid = filter (dict_has (outputs cg)) (invalid_params vp1 @ unresolved_params vp1)
           in if invalid \<noteq> [] then
                (if truthy skp then
                   (Inr ps1, self1, subst1,
                    log_msg WARNING ''since the step was skipped, this is not fatal''
                      (log_msg WARNING (''invalid outputs: '' @ join_quote invalid) w2))
                 else
                   (Inl (StepValidationError (''invalid outputs: '' @ join_quote invalid) None True),
                    self1, subst1, w2))
              else (Inr ps1, self1, subst1, w2)))"

text \<open>
  From the update of \<^verbatim>\<open>validated_params\<close> after input validation to the end of \<^verbatim>\<open>run\<close>.
\<close>

definition run_after_inputs ::
  "env \<Rightarrow> step \<Rightarrow> cargo_obj \<Rightarrow> pyval \<Rightarrow> subst_ns option \<Rightarrow> pyval \<Rightarrow> pydict \<Rightarrow> pydict \<Rightarrow> bool \<Rightarrow> bool
     \<Rightarrow> world \<Rightarrow> (exc + pydict) \<times> step \<times> subst_ns option \<times> world" where
  "run_after_inputs env self cg skp subst batch vp ps validated skip_warned w =
     (let vp1 = dict_update vp ps;
          self1 = self\<lparr>validated_params := Some vp1\<rparr>;
          w1 = (if validated \<and> \<not> truthy skp
                then log_summary env self1 cg INFO ''validated inputs'' True w else w);
          subst1 = (if validated \<and> \<not> truthy skp
                    then map_option (\<lambda>ns. ns\<lparr>current := ps\<rparr>) subst else subst)
      in case check_inputs self1 vp1 skip_warned w1 of
           (Some e, w2) \<Rightarrow> (Inl e, self1, subst1, w2)
         | (None, w2) \<Rightarrow>
             (case dispatch env self1 cg skp subst1 batch ps w2 of
                (Inl e, w3) \<Rightarrow> (Inl e, self1, subst1, w3)
              | (Inr ps2, w3) \<Rightarrow> run_outputs env self1 cg skp subst1 vp1 ps2 w3))"

text \<open>The body of the \<^verbatim>\<open>with\<close> block of \<^verbatim>\<open>run\<close>.\<close>

definition run_body ::
  "env \<Rightarrow> step \<Rightarrow> subst_ns option \<Rightarrow> pyval \<Rightarrow> world
     \<Rightarrow> (exc + pydict) \<times> step \<times> subst_ns option \<times> world" where
  "run_body env self subst batch w =
     (case eval_skip env self subst w of
        (Inl e, w1) \<Rightarrow> (Inl e, self, subst, w1)
      | (Inr skp, w1) \<Rightarrow>
          (case validated_params self of
             None \<Rightarrow> (Inl (AttributeError ''copy''), self, subst, w1)
           | Some vp \<Rightarrow>
               (case cargo self of
                  None \<Rightarrow> (Inl (AttributeError ''debug''), self, subst, w1)
                | Some a \<Rightarrow>
                    (let cg = heap w1 a;
                         ps = dict_update vp (params self);
                         w2 = log_msg DEBUG (''validating inputs '' @ show_keys env subst) w1
                     in case validate_inputs_phase env self cg skp subst ps w2 of
                          (Inl e, w3) \<Rightarrow> (Inl e, self, subst, w3)
                        | (Inr (ps1, validated, skip_warned), w3) \<Rightarrow>
                            run_after_inputs env self cg skp subst batch vp ps1 validated
                              skip_warned w3))))"

text \<open>
  \<^verbatim>\<open>Step.run(subst, batch, parent_log)\<close>. The argument \<^verbatim>\<open>parent_log\<close> is assigned and
  never read, and is left out. Prevalidation, when it is still due, receives the raw
  parameters as its \<^verbatim>\<open>subst\<close> argument, as in the source.

  Modelled from the spec: \<^verbatim>\<open>stimelogging.declare_subtask\<close> is not part of the sources at
  hand; the specification describes it as a scoped logging sub-context for the step's
  name, closed on every exit path. It is the push and the pop of \<open>subtasks\<close>.
\<close>

definition ensure_prevalidated :: "env \<Rightarrow> step \<Rightarrow> world \<Rightarrow> (exc + unit) \<times> step \<times> world" where
  "ensure_prevalidated env self w =
     (case validated_params self of
        None \<Rightarrow>
          (case prevalidate env self (PlainDict (params self)) False w of
             (Inl e, self1, w1) \<Rightarrow> (Inl e, self1, w1)
           | (Inr vp, self1, w1) \<Rightarrow> (Inr (), self1, w1))
      | Some vp \<Rightarrow> (Inr (), self, w))"

definition run ::
  "env \<Rightarrow> step \<Rightarrow> subst_ns option \<Rightarrow> pyval \<Rightarrow> world
     \<Rightarrow> (exc + pydict) \<times> step \<times> subst_ns option \<times> world" where
  "run env self subst batch w =
     (case ensure_prevalidated env self w of
        (Inl e, self1, w1) \<Rightarrow> (Inl e, self1, subst, w1)
      | (Inr u, self1, w1) \<Rightarrow>
          (case run_body env self1 subst batch (w1\<lparr>subtasks := name self1 # subtasks w1\<rparr>) of
             (r, self2, subst2, w2) \<Rightarrow> (r, self2, subst2, w2\<lparr>subtasks := tl (subtasks w2)\<rparr>)))"

section \<open>Sequences of runs, and what counts as a runner call\<close>

text \<open>Running a step several times in a row, each time with its own namespace and batch.\<close>

fun run_many :: "env \<Rightarrow> step \<Rightarrow> (subst_ns option \<times> pyval) list \<Rightarrow> world \<Rightarrow> step \<times> world" where
  "run_many env self [] w = (self, w)"
| "run_many env self ((subst, batch) # rest) w =
     (case run env self subst batch w of
        (r, self1, subst1, w1) \<Rightarrow> run_many env self1 rest w1)"

fun is_runner_call :: "call \<Rightarrow> bool" where
  "is_runner_call (RunCab ps b) = True"
| "is_runner_call (RecipeRun ps) = True"
| "is_runner_call (EvaluateAndSubstitute skips) = False"

fun is_skip_evaluation :: "call \<Rightarrow> bool" where
  "is_skip_evaluation (EvaluateAndSubstitute skips) = True"
| "is_skip_evaluation c = False"

section \<open>A small configuration to compute with\<close>

text \<open>
  One task, \<^verbatim>\<open>copy\<close>, with the required inputs \<^verbatim>\<open>src\<close> and \<^verbatim>\<open>dst\<close> and an input \<^verbatim>\<open>x\<close>
  whose default is 7; collaborators that accept what they are given; a state with no
  objects, an empty cache and an empty log.
\<close>

definition copy_cab :: cargo_obj where
  "copy_cab =
     \<lparr>kind = Cab, cargo_name = ''copy'', cargo_backend = NoneV,
      inputs = [(''src'', \<lparr>required = True, default_val = NoneV\<rparr>),
                (''dst'', \<lparr>required = True, default_val = NoneV\<rparr>),
                (''x'', \<lparr>required = False, default_val = IntV 7\<rparr>)],
      outputs = [],
      inputs_outputs = [(''src'', \<lparr>required = True, default_val = NoneV\<rparr>),
                        (''dst'', \<lparr>required = True, default_val = NoneV\<rparr>),
                        (''x'', \<lparr>required = False, default_val = IntV 7\<rparr>)],
      cargo_defaults = [], definition_of = NoneV\<rparr>"

definition example_config :: pyval where
  "example_config =
     DictV [(''cabs'', DictV [(''copy'', DictV [(''command'', StrV ''cp'')])]),
            (''opts'', DictV [(''backend'', StrV ''native'')]),
            (''lib'', DictV [(''recipes'', DictV [])])]"

definition example_env :: env where
  "example_env =
     \<lparr>global_config = example_config,
      make_cab = (\<lambda>d. Inr (copy_cab\<lparr>definition_of := d\<rparr>)),
      make_recipe = (\<lambda>d. Inl (OmegaConfError ''not a recipe'')),
      flatten_param_dict = (\<lambda>cg acc ps. Inr (dict_update acc ps)),
      cargo_finalize = (\<lambda>cg cfg lg lo fq n. Inr cg),
      cargo_prevalidate = (\<lambda>cg ps subst root. Inr ps),
      validate_inputs = (\<lambda>cg ps loosely subst. Inr ps),
      validate_outputs = (\<lambda>cg ps loosely subst. Inr ps),
      evaluate_and_substitute = (\<lambda>skips ns cur loc ign. Inr [(''skip'', BoolV False)]),
      run_cab = (\<lambda>self ps b subst batch. Inr ps),
      recipe_run = (\<lambda>cg ps. Inr ps),
      cargo_summary = (\<lambda>cg recursive ps ign. []),
      log_enabled = (\<lambda>lvl. lvl \<noteq> DEBUG),
      show_keys = (\<lambda>subst. ''None'')\<rparr>"

text \<open>The same, with an input validation that leaves \<^verbatim>\<open>dst\<close> unresolved.\<close>

definition unresolved_env :: env where
  "unresolved_env =
     example_env\<lparr>validate_inputs :=
       (\<lambda>cg ps loosely subst. Inr (dict_setitem ''dst'' (UnresolvedV ''{recipe.out}'') ps))\<rparr>"

text \<open>The same, with a prevalidation that marks \<^verbatim>\<open>dst\<close> as invalid.\<close>

definition invalid_env :: env where
  "invalid_env =
     example_env\<lparr>cargo_prevalidate :=
       (\<lambda>cg ps subst root. Inr (dict_setitem ''dst'' (ErrorV ''not a file'') ps))\<rparr>"

text \<open>The same, with a substitution engine that answers that the step is to be skipped.\<close>

definition skipping_env :: env where
  "skipping_env =
     example_env\<lparr>evaluate_and_substitute :=
       (\<lambda>skips ns cur loc ign. Inr [(''skip'', BoolV True)])\<rparr>"

definition no_object :: cargo_obj where
  "no_object =
     \<lparr>kind = Other, cargo_name = [], cargo_backend = NoneV, inputs = [], outputs = [],
      inputs_outputs = [], cargo_defaults = [], definition_of = NoneV\<rparr>"

definition initial_world :: world where
  "initial_world =
     \<lparr>heap = (\<lambda>a. no_object), next_addr = 0, instantiated_cabs = [], log = [], calls = [],
      subtasks = []\<rparr>"

text \<open>The arguments of \<^verbatim>\<open>Step()\<close> when none is given: the defaults of the dataclass.\<close>

definition new_step :: step where
  "new_step =
     \<lparr>cab = None, recipe = RecipeData NoneV, params = [], info = None, skip = None, tags = [],
      backend = NoneV, name = [], fqname = [], assign = [], assign_based_on = [], runtime = [],
      cargo = None, config = NoneV, validated_params = None, skip_preset = None, defaults = []\<rparr>"

definition copy_step :: step where
  "copy_step =
     new_step\<lparr>cab := Some ''copy'', name := ''s1'',
               params := [(''src'', StrV ''a''), (''dst'', StrV ''b'')]\<rparr>"

section \<open>Evaluation on concrete inputs\<close>

text \<open>
  The definitions of the step's operations, and of the small configuration, for the
  simplifier.
\<close>

lemmas run_defs = run_def ensure_prevalidated_def prevalidate_def finalize_def finalized_def
  bind_cab_def bind_recipe_def finish_finalize_def allocate_def set_cargo_name_def
  py_getattr_def schema_defaults_def dict_has_def run_body_def eval_skip_def skip_value_def
  validate_inputs_phase_def run_after_inputs_def check_inputs_def dispatch_def default_backend_def
  run_outputs_def validate_outputs_phase_def log_summary_def log_msg_def log_lines_def
  summary_params_def missing_params_def invalid_params_def unresolved_params_def join_quote_def
  quote_def str_truthy_def merge_current_def opt_str_def show_nat.simps Let_def

lemmas ex_defs = example_env_def example_config_def copy_cab_def
  initial_world_def new_step_def copy_step_def no_object_def

section \<open>Properties of the resolver\<close>

lemma str_split_not_Nil: "str_split sep s \<noteq> []"
  by (induction s) (auto split: list.splits)

text \<open>
  C3: resolving \<^verbatim>\<open>"a.b.c"\<close> against a base whose entry \<^verbatim>\<open>a\<close> is a section with an entry
  \<^verbatim>\<open>b\<close> returns that entry \<^verbatim>\<open>base["a"]["b"]\<close> together with the name \<^verbatim>\<open>"c"\<close>,
  whatever the entry is and whether or not it holds \<^verbatim>\<open>c\<close>; for the base
  \<^verbatim>\<open>{a: {b: {c: 1}}}\<close> with no current section this is \<^verbatim>\<open>({c: 1}, "c")\<close>. Resolving
  \<^verbatim>\<open>".x"\<close> with the current section \<^verbatim>\<open>{x: 5}\<close> returns the current section and
  \<^verbatim>\<open>"x"\<close>.
\<close>

theorem resolve_dotted_reference_examples:
  "resolve_dotted_reference ''a.b.c''
      (DictV [(''a'', DictV [(''b'', DictV [(''c'', IntV 1)])])]) NoneV ctx
     = Inr (DictV [(''c'', IntV 1)], ''c'')
   \<and> resolve_dotted_reference ''a.b.c''
      (DictV ((''a'', DictV ((''b'', entry) # more_a)) # more_base)) cur ctx
     = Inr (entry, ''c'')
   \<and> resolve_dotted_reference ''.x'' base (DictV [(''x'', IntV 5)]) ctx
     = Inr (DictV [(''x'', IntV 5)], ''x'')"
  by (simp add: resolve_dotted_reference_def)

text \<open>
  The failures of the resolver: a leading separator without a usable current section; the
  empty key with a current section (the only key for which the check after dropping the
  first segment fires); a doubled separator; a segment missing from the section walked.
\<close>

lemma resolve_dotted_reference_failures:
  "\<not> truthy cur \<Longrightarrow>
     resolve_dotted_reference (CHR ''.'' # rest) base cur ctx
       = Inl (NameError (ctx @ '': leading '.' not permitted here''))"
  "truthy cur \<Longrightarrow>
     resolve_dotted_reference [] base cur ctx = Inl (NameError (ctx @ '': '.' not permitted''))"
  "truthy cur \<Longrightarrow>
     resolve_dotted_reference ''..'' base cur ctx = Inl (NameError (ctx @ '': '..' not permitted''))"
  "map_of kvs ''a'' = Some v \<Longrightarrow>
     resolve_dotted_reference ''a..b'' (DictV kvs) cur ctx
       = Inl (NameError (ctx @ '': '..' not permitted''))"
  "map_of kvs ''a'' = None \<Longrightarrow>
     resolve_dotted_reference ''a.b'' (DictV kvs) cur ctx
       = Inl (NameError (ctx @ '': '' @ quote ''a'' @ '' in '' @ quote ''a.b''
                          @ '' is not a valid config section''))"
  by (simp_all add: resolve_dotted_reference_def split: list.splits)

text \<open>
  C2, at a failing input: the key that is exactly the separator, with a current section
  \<^verbatim>\<open>{x: 5}\<close>, does not fail. \<^verbatim>\<open>".".split(".")\<close> is \<^verbatim>\<open>["", ""]\<close>, so that the path left
  after the first segment is \<^verbatim>\<open>[""]\<close>, which is not empty; the resolver returns the
  current section and the empty name, and the error \<^verbatim>\<open>'.' not permitted\<close> is not
  raised.
\<close>

theorem resolve_dotted_reference_separator_returns:
  "resolve_dotted_reference ''.'' base (DictV [(''x'', IntV 5)]) ctx
     = Inr (DictV [(''x'', IntV 5)], [])"
  by (simp add: resolve_dotted_reference_def)

section \<open>Properties of the construction\<close>

lemma post_init_Inr:
  assumes "post_init r = Inr s"
  shows "cargo s = None \<and> validated_params s = None
         \<and> str_truthy (cab s) \<noteq> recipe_truthy (recipe s)
         \<and> cab s = cab r \<and> recipe s = recipe r \<and> skip s = skip r \<and> params s = params r
         \<and> name s = name r"
  using assms unfolding post_init_def by (auto simp: Let_def split: if_splits)

text \<open>
  A step with both targets or with neither is refused, whatever else it holds; the error
  is the same value for every step.
\<close>

lemma post_init_both_or_neither:
  "str_truthy (cab r) = recipe_truthy (recipe r) \<Longrightarrow>
   post_init r =
     Inl (StepValidationError
            ''step '{self.name}': step must specify either a cab or a nested recipe, but not both''
            None False)"
  by (simp add: post_init_def)

text \<open>
  C9, at a failing input: a step named \<^verbatim>\<open>s1\<close> with neither a cab nor a recipe, and one
  with both, are refused with a \<open>StepValidationError\<close> whose message is the text
  \<^verbatim>\<open>step '{self.name}': ...\<close> with the placeholder left as it is: the name \<^verbatim>\<open>s1\<close> does
  not occur in it.
\<close>

theorem post_init_error_omits_name:
  "post_init (new_step\<lparr>name := ''s1''\<rparr>) =
     Inl (StepValidationError
            ''step '{self.name}': step must specify either a cab or a nested recipe, but not both''
            None False)
   \<and> post_init (new_step\<lparr>name := ''s1'', cab := Some ''copy'', recipe := RecipeData (StrV ''r'')\<rparr>) =
     Inl (StepValidationError
            ''step '{self.name}': step must specify either a cab or a nested recipe, but not both''
            None False)
   \<and> \<not> str_contains
          ''step '{self.name}': step must specify either a cab or a nested recipe, but not both''
          ''s1''"
  by (simp add: post_init_def new_step_def str_truthy_def)

section \<open>Dictionaries\<close>

lemma map_of_dict_setitem:
  "map_of (dict_setitem k v d) k' = (if k' = k then Some v else map_of d k')"
  by (induction d) auto

lemma map_of_rev_distinct: "distinct (map fst xs) \<Longrightarrow> map_of (rev xs) k = map_of xs k"
proof (induction xs)
  case Nil
  then show ?case by simp
next
  case (Cons kv xs)
  obtain k' v where kv: "kv = (k', v)" by (cases kv)
  have notin: "map_of xs k' = None"
    using Cons.prems by (simp add: kv map_of_eq_None_iff)
  show ?case
    using Cons by (auto simp: kv map_add_def notin split: option.splits)
qed

lemma map_of_dict_update:
  "map_of (dict_update d other) k =
     (case map_of (rev other) k of Some v \<Rightarrow> Some v | None \<Rightarrow> map_of d k)"
proof (induction other arbitrary: d)
  case Nil
  then show ?case by simp
next
  case (Cons kv other)
  obtain k' v where kv: "kv = (k', v)" by (cases kv)
  show ?case
    using Cons.IH [of "dict_setitem k' v d"]
    by (simp add: kv map_of_dict_setitem map_add_def split: option.splits)
qed

lemma map_of_dict_update_distinct:
  "distinct (map fst other) \<Longrightarrow>
   map_of (dict_update d other) k =
     (case map_of other k of Some v \<Rightarrow> Some v | None \<Rightarrow> map_of d k)"
  by (simp add: map_of_dict_update map_of_rev_distinct)

lemma map_of_set_missing:
  "map_of (set_missing ps ds) k = (case map_of ps k of Some v \<Rightarrow> Some v | None \<Rightarrow> map_of ds k)"
  by (induction ds arbitrary: ps)
     (auto simp: dict_has_def map_of_dict_setitem split: option.splits)

lemma map_of_schema_defaults:
  assumes "distinct (map fst io)"
  shows "map_of (schema_defaults io) k =
     (case map_of io k of
        None \<Rightarrow> None
      | Some sch \<Rightarrow> if default_val sch \<noteq> NoneV \<and> \<not> is_unresolved (default_val sch)
                    then Some (default_val sch) else None)"
proof -
  let ?P = "\<lambda>(n, sch). default_val sch \<noteq> NoneV \<and> \<not> is_unresolved (default_val sch)"
  let ?f = "\<lambda>(n, sch). (n, default_val sch)"
  have d: "distinct (map fst (map ?f (filter ?P io)))"
    using assms by (induction io) (auto simp: image_iff)
  have "map_of (map ?f (filter ?P io)) k =
     (case map_of io k of
        None \<Rightarrow> None
      | Some sch \<Rightarrow> if default_val sch \<noteq> NoneV \<and> \<not> is_unresolved (default_val sch)
                    then Some (default_val sch) else None)"
    using assms by (induction io) (auto simp: map_of_eq_None_iff image_iff split: option.splits)
  then show ?thesis
    by (simp add: schema_defaults_def map_of_dict_update_distinct [OF d] split: option.splits)
qed

section \<open>Properties of finalize\<close>

lemma bind_cab_Inr:
  assumes "bind_cab env s cfg w = (Inr a, s', w')"
  shows "a = next_addr w \<and> next_addr w' = Suc (next_addr w) \<and> s' = s\<lparr>cargo := Some a\<rparr>"
  using assms unfolding bind_cab_def allocate_def
  by (auto split: option.splits sum.splits bool.splits)

lemma bind_recipe_Inr:
  assumes "bind_recipe env s cfg w = (Inr a, s', w')"
  shows "cargo s' = Some a \<and> params s' = params s \<and> name s' = name s \<and> fqname s' = fqname s
         \<and> next_addr w \<le> next_addr w'"
  using assms unfolding bind_recipe_def allocate_def
  by (auto simp: Let_def split: recipe_val.splits pyval.splits sum.splits exc.splits prod.splits if_splits)

lemma finish_finalize_Inr:
  assumes "finish_finalize env s a cfg lg lo n w = (Inr u, s', w')"
  shows "\<exists>flat. flatten_param_dict env (heap (set_cargo_name a (name s) w) a) [] (params s) = Inr flat
           \<and> defaults s' = dict_update (schema_defaults (inputs_outputs (heap w' a)))
                                       (cargo_defaults (heap w' a))
           \<and> params s' = set_missing flat (defaults s')
           \<and> cargo s' = cargo s \<and> next_addr w' = next_addr w"
  using assms unfolding finish_finalize_def
  by (auto simp: Let_def set_cargo_name_def split: sum.splits)

lemma finalize_Inr_finalized:
  assumes "finalize env s cfg lg lo fq n w = (Inr u, s', w')"
  shows "finalized s'"
proof (cases "finalized s")
  case True
  with assms show ?thesis by (simp add: finalize_def)
next
  case False
  let ?s2 = "(case fq of None \<Rightarrow> s | Some f \<Rightarrow> s\<lparr>fqname := f\<rparr>)\<lparr>config := (if truthy cfg then cfg else global_config env)\<rparr>"
  let ?cfg = "if truthy cfg then cfg else global_config env"
  obtain r s3 w1 where b: "(if recipe_truthy (recipe ?s2) then bind_recipe env ?s2 ?cfg w
                  else bind_cab env ?s2 ?cfg w) = (r, s3, w1)"
    by (metis prod_cases3)
  from assms False b obtain a where r: "r = Inr a"
     and ff: "finish_finalize env s3 a ?cfg lg lo n w1 = (Inr u, s', w')"
    by (cases r) (auto simp: finalize_def Let_def)
  have "cargo s3 = Some a"
    using b r bind_cab_Inr [of env ?s2 ?cfg w a s3 w1] bind_recipe_Inr [of env ?s2 ?cfg w a s3 w1]
    by (auto split: if_splits)
  with finish_finalize_Inr [OF ff] show ?thesis by (auto simp: finalized_def)
qed

lemma finalize_Inr_unfold:
  assumes "\<not> finalized s" and "finalize env s cfg lg lo fq n w = (Inr u, s', w')"
  shows "\<exists>a s3 w1. cargo s3 = Some a \<and> params s3 = params s \<and> name s3 = name s
           \<and> next_addr w \<le> next_addr w1
           \<and> (\<not> recipe_truthy (recipe s) \<longrightarrow> a = next_addr w \<and> next_addr w1 = Suc (next_addr w))
           \<and> finish_finalize env s3 a (if truthy cfg then cfg else global_config env) lg lo n w1
                = (Inr u, s', w')"
proof -
  let ?cfg = "if truthy cfg then cfg else global_config env"
  let ?s2 = "(case fq of None \<Rightarrow> s | Some f \<Rightarrow> s\<lparr>fqname := f\<rparr>)\<lparr>config := ?cfg\<rparr>"
  have s2: "recipe ?s2 = recipe s" "params ?s2 = params s" "name ?s2 = name s"
    by (simp_all split: option.splits)
  obtain r s3 w1 where b: "(if recipe_truthy (recipe ?s2) then bind_recipe env ?s2 ?cfg w
                  else bind_cab env ?s2 ?cfg w) = (r, s3, w1)"
    by (metis prod_cases3)
  from assms b obtain a where r: "r = Inr a"
     and ff: "finish_finalize env s3 a ?cfg lg lo n w1 = (Inr u, s', w')"
    by (cases r) (auto simp: finalize_def Let_def)
  have "cargo s3 = Some a \<and> params s3 = params s \<and> name s3 = name s
           \<and> next_addr w \<le> next_addr w1
           \<and> (\<not> recipe_truthy (recipe s) \<longrightarrow> a = next_addr w \<and> next_addr w1 = Suc (next_addr w))"
  proof (cases "recipe_truthy (recipe s)")
    case True
    with b r s2(1) have "bind_recipe env ?s2 ?cfg w = (Inr a, s3, w1)" by simp
    from bind_recipe_Inr [OF this] s2 True show ?thesis by simp
  next
    case False
    with b r s2(1) have "bind_cab env ?s2 ?cfg w = (Inr a, s3, w1)" by simp
    from bind_cab_Inr [OF this] s2 False show ?thesis by simp
  qed
  with ff show ?thesis by blast
qed

text \<open>
  C4: after a successful call of \<^verbatim>\<open>finalize\<close>, a second call, with any arguments,
  returns without changing anything: the step (its cargo, its parameters) and the state
  (the objects, the cache of instantiated cabs) are the same.
\<close>

theorem finalize_idempotent:
  assumes "finalize env self cfg lg lo fq n w = (Inr (), self', w')"
  shows "finalize env2 self' cfg2 lg2 lo2 fq2 n2 w' = (Inr (), self', w')"
  using finalize_Inr_finalized [OF assms] by (simp add: finalize_def)

text \<open>
  A witness: the step \<^verbatim>\<open>copy\<close> of the small configuration is finalized, its cargo is the
  object at address 0, the cache has one entry, and a second call changes nothing.
\<close>

theorem finalize_idempotent_witness:
  "case finalize example_env copy_step NoneV NoLogger NoneV None 0 initial_world of
     (r, s', w') \<Rightarrow> r = Inr () \<and> cargo s' = Some 0 \<and> instantiated_cabs w' = [(''copy'', 0)] \<and>
        finalize example_env s' NoneV NoLogger NoneV None 0 w' = (Inr (), s', w')"
proof -
  define s' where "s' = fst (snd (finalize example_env copy_step NoneV NoLogger NoneV None 0 initial_world))"
  define w' where "w' = snd (snd (finalize example_env copy_step NoneV NoLogger NoneV None 0 initial_world))"
  have f: "finalize example_env copy_step NoneV NoLogger NoneV None 0 initial_world = (Inr (), s', w')"
    by (simp add: s'_def w'_def run_defs ex_defs)
  have "cargo s' = Some 0 \<and> instantiated_cabs w' = [(''copy'', 0)]"
    by (simp add: s'_def w'_def run_defs ex_defs)
  with finalize_idempotent [OF f, of example_env NoneV NoLogger NoneV None 0] f show ?thesis
    by simp
qed

text \<open>
  C5: after \<^verbatim>\<open>finalize\<close> has bound a step, a name has in \<^verbatim>\<open>params\<close> the value it had
  in the (flattened) parameters of the caller if it was there; otherwise the value of the
  cargo's own defaults if it is there; otherwise the schema default, if the schema declares
  one that is neither \<^verbatim>\<open>None\<close> nor unresolved; otherwise nothing. Flattening is the
  cargo's; where it returns the caller's parameters as they are, every value the caller
  supplied is still there. The dictionaries of the cargo have distinct keys.
\<close>

theorem finalize_merges_defaults:
  assumes "\<not> finalized self"
      and "finalize env self cfg lg lo fq n w = (Inr (), self', w')"
      and "cargo self' = Some a"
      and "distinct (map fst (inputs_outputs (heap w' a)))"
      and "distinct (map fst (cargo_defaults (heap w' a)))"
  shows "\<exists>flat cg. flatten_param_dict env cg [] (params self) = Inr flat \<and>
           (\<forall>k. map_of (params self') k =
              (case map_of flat k of
                 Some v \<Rightarrow> Some v
               | None \<Rightarrow>
                   (case map_of (cargo_defaults (heap w' a)) k of
                      Some d \<Rightarrow> Some d
                    | None \<Rightarrow>
                        (case map_of (inputs_outputs (heap w' a)) k of
                           None \<Rightarrow> None
                         | Some sch \<Rightarrow>
                             if default_val sch \<noteq> NoneV \<and> \<not> is_unresolved (default_val sch)
                             then Some (default_val sch) else None)))) \<and>
           (flat = params self \<longrightarrow>
              (\<forall>k v. map_of (params self) k = Some v \<longrightarrow> map_of (params self') k = Some v))"
proof -
  from finalize_Inr_unfold [OF assms(1,2)] obtain b s3 w1 where
    s3: "cargo s3 = Some b" "params s3 = params self" "name s3 = name self" and
    ff: "finish_finalize env s3 b (if truthy cfg then cfg else global_config env) lg lo n w1
           = (Inr (), self', w')"
    by blast
  from finish_finalize_Inr [OF ff] obtain flat where
    fl: "flatten_param_dict env (heap (set_cargo_name b (name s3) w1) b) [] (params s3) = Inr flat" and
    ds: "defaults self' = dict_update (schema_defaults (inputs_outputs (heap w' b)))
                                       (cargo_defaults (heap w' b))" and
    ps: "params self' = set_missing flat (defaults self')" and
    cg: "cargo self' = cargo s3"
    by blast
  from cg s3(1) assms(3) have ba: "b = a" by simp
  have m: "map_of (params self') k =
              (case map_of flat k of
                 Some v \<Rightarrow> Some v
               | None \<Rightarrow>
                   (case map_of (cargo_defaults (heap w' a)) k of
                      Some d \<Rightarrow> Some d
                    | None \<Rightarrow>
                        (case map_of (inputs_outputs (heap w' a)) k of
                           None \<Rightarrow> None
                         | Some sch \<Rightarrow>
                             if default_val sch \<noteq> NoneV \<and> \<not> is_unresolved (default_val sch)
                             then Some (default_val sch) else None)))" for k
    by (simp add: ps ds ba map_of_set_missing map_of_dict_update_distinct [OF assms(5)]
          map_of_schema_defaults [OF assms(4)] split: option.splits)
  have "flat = params self \<longrightarrow>
          (\<forall>k v. map_of (params self) k = Some v \<longrightarrow> map_of (params self') k = Some v)"
    by (simp add: m)
  moreover have "flatten_param_dict env (heap (set_cargo_name b (name s3) w1) b) [] (params self) = Inr flat"
    using fl s3(2) by simp
  ultimately show ?thesis using m by blast
qed

text \<open>
  A witness: with the input \<^verbatim>\<open>x\<close> of default 7, a step that does not set \<^verbatim>\<open>x\<close> has
  \<^verbatim>\<open>params["x"] = 7\<close> after \<^verbatim>\<open>finalize\<close> and keeps its own \<^verbatim>\<open>src\<close>; a step that sets
  \<^verbatim>\<open>x\<close> to 3 keeps 3.
\<close>

theorem finalize_merges_defaults_witness:
  "(case finalize example_env copy_step NoneV NoLogger NoneV None 0 initial_world of
      (r, s', w') \<Rightarrow> r = Inr () \<and> map_of (params s') ''x'' = Some (IntV 7)
                       \<and> map_of (params s') ''src'' = Some (StrV ''a'')) \<and>
   (case finalize example_env (copy_step\<lparr>params := [(''x'', IntV 3)]\<rparr>) NoneV NoLogger NoneV None 0
           initial_world of
      (r, s', w') \<Rightarrow> r = Inr () \<and> map_of (params s') ''x'' = Some (IntV 3))"
proof -
  have one: "r = Inr () \<and> (\<exists>flat. Inr (dict_update [] ps) = Inr flat \<and>
               (\<forall>k. map_of (params s') k =
                 (case map_of flat k of
                    Some v \<Rightarrow> Some v
                  | None \<Rightarrow>
                     (case map_of (inputs_outputs copy_cab) k of
                        None \<Rightarrow> None
                      | Some sch \<Rightarrow>
                          if default_val sch \<noteq> NoneV \<and> \<not> is_unresolved (default_val sch)
                          then Some (default_val sch) else None))))"
    if f: "finalize example_env (copy_step\<lparr>params := ps\<rparr>) NoneV NoLogger NoneV None 0 initial_world
             = (r, s', w')"
    for ps r s' w'
  proof -
    have r: "r = Inr ()" and c: "cargo s' = Some 0"
      and io: "inputs_outputs (heap w' 0) = inputs_outputs copy_cab"
      and cd: "cargo_defaults (heap w' 0) = []"
      using f by (auto simp: run_defs ex_defs)
    have nf: "\<not> finalized (copy_step\<lparr>params := ps\<rparr>)"
      by (simp add: finalized_def ex_defs)
    have d1: "distinct (map fst (inputs_outputs (heap w' 0)))" by (simp add: io copy_cab_def)
    have d2: "distinct (map fst (cargo_defaults (heap w' 0)))" by (simp add: cd)
    from finalize_merges_defaults [OF nf f [unfolded r] c d1 d2] r show ?thesis
      by (auto simp: io cd example_env_def split: option.splits)
  qed
  obtain r1 s1 w1 where f1:
    "finalize example_env (copy_step\<lparr>params := [(''src'', StrV ''a''), (''dst'', StrV ''b'')]\<rparr>)
        NoneV NoLogger NoneV None 0 initial_world = (r1, s1, w1)"
    by (metis prod_cases3)
  obtain r2 s2 w2 where f2:
    "finalize example_env (copy_step\<lparr>params := [(''x'', IntV 3)]\<rparr>)
        NoneV NoLogger NoneV None 0 initial_world = (r2, s2, w2)"
    by (metis prod_cases3)
  have same: "copy_step\<lparr>params := [(''src'', StrV ''a''), (''dst'', StrV ''b'')]\<rparr> = copy_step"
    by (simp add: copy_step_def)
  from one [OF f1] one [OF f2] f1 f2 show ?thesis
    by (simp add: same copy_cab_def)
qed

text \<open>
  C7: two steps constructed for the same task name and finalized one after the other (the
  state may have moved on in between, with no address taken back) have their cargo at two
  different addresses, so that assigning a name to the cargo of one leaves the name of the
  cargo of the other as it is.
\<close>

theorem cargo_copies_independent:
  assumes "post_init r1 = Inr s1" and "post_init r2 = Inr s2"
      and "cab s1 = Some c" and "cab s2 = Some c" and "c \<noteq> []"
      and "finalize env s1 cfg1 lg1 lo1 fq1 n1 w0 = (Inr (), s1', w1)"
      and "next_addr w1 \<le> next_addr wm"
      and "finalize env2 s2 cfg2 lg2 lo2 fq2 n2 wm = (Inr (), s2', w2)"
  shows "\<exists>a1 a2. cargo s1' = Some a1 \<and> cargo s2' = Some a2 \<and> a1 \<noteq> a2 \<and>
           (\<forall>w nm. cargo_name (heap (set_cargo_name a1 nm w) a2) = cargo_name (heap w a2)) \<and>
           (\<forall>w nm. cargo_name (heap (set_cargo_name a2 nm w) a1) = cargo_name (heap w a1))"
proof -
  have u1: "\<not> finalized s1" "\<not> recipe_truthy (recipe s1)"
    using post_init_Inr [OF assms(1)] assms(3,5) by (auto simp: finalized_def str_truthy_def)
  have u2: "\<not> finalized s2" "\<not> recipe_truthy (recipe s2)"
    using post_init_Inr [OF assms(2)] assms(4,5) by (auto simp: finalized_def str_truthy_def)
  from finalize_Inr_unfold [OF u1(1) assms(6)] u1(2) obtain s3 w3 where
    a1: "cargo s3 = Some (next_addr w0)" "next_addr w3 = Suc (next_addr w0)" and
    f1: "finish_finalize env s3 (next_addr w0) (if truthy cfg1 then cfg1 else global_config env)
           lg1 lo1 n1 w3 = (Inr (), s1', w1)"
    by auto
  from finalize_Inr_unfold [OF u2(1) assms(8)] u2(2) obtain s4 w4 where
    a2: "cargo s4 = Some (next_addr wm)" and
    f2: "finish_finalize env2 s4 (next_addr wm) (if truthy cfg2 then cfg2 else global_config env2)
           lg2 lo2 n2 w4 = (Inr (), s2', w2)"
    by auto
  have c1: "cargo s1' = Some (next_addr w0)" "next_addr w1 = Suc (next_addr w0)"
    using finish_finalize_Inr [OF f1] a1 by auto
  have c2: "cargo s2' = Some (next_addr wm)"
    using finish_finalize_Inr [OF f2] a2 by auto
  have "next_addr w0 \<noteq> next_addr wm"
    using c1(2) assms(7) by simp
  then show ?thesis
    using c1(1) c2 by (simp add: set_cargo_name_def)
qed

text \<open>
  A witness: two steps \<^verbatim>\<open>s1\<close> and \<^verbatim>\<open>s2\<close> for the task \<^verbatim>\<open>copy\<close>; after both are
  finalized their cargo is at the addresses 0 and 1, each carries the name of its step,
  and renaming one does not rename the other.
\<close>

theorem cargo_copies_independent_witness:
  "\<exists>s1 s2 s1' w1 s2' w2.
     post_init copy_step = Inr s1 \<and> post_init (copy_step\<lparr>name := ''s2''\<rparr>) = Inr s2 \<and>
     finalize example_env s1 NoneV NoLogger NoneV None 0 initial_world = (Inr (), s1', w1) \<and>
     finalize example_env s2 NoneV NoLogger NoneV None 0 w1 = (Inr (), s2', w2) \<and>
     cargo s1' = Some 0 \<and> cargo s2' = Some 1 \<and>
     cargo_name (heap w2 0) = ''s1'' \<and> cargo_name (heap w2 1) = ''s2'' \<and>
     cargo_name (heap (set_cargo_name 1 ''renamed'' w2) 0) = ''s1'' \<and>
     cargo_name (heap (set_cargo_name 0 ''renamed'' w2) 1) = ''s2''"
proof -
  define s1 where "s1 = copy_step\<lparr>fqname := ''s1'', skip_preset := Some False\<rparr>"
  define s2 where "s2 = copy_step\<lparr>name := ''s2'', fqname := ''s2'', skip_preset := Some False\<rparr>"
  define s1' where "s1' = fst (snd (finalize example_env s1 NoneV NoLogger NoneV None 0 initial_world))"
  define w1 where "w1 = snd (snd (finalize example_env s1 NoneV NoLogger NoneV None 0 initial_world))"
  define s2' where "s2' = fst (snd (finalize example_env s2 NoneV NoLogger NoneV None 0 w1))"
  define w2 where "w2 = snd (snd (finalize example_env s2 NoneV NoLogger NoneV None 0 w1))"
  have p1: "post_init copy_step = Inr s1"
    by (simp add: s1_def post_init_def str_truthy_def ex_defs)
  have p2: "post_init (copy_step\<lparr>name := ''s2''\<rparr>) = Inr s2"
    by (simp add: s2_def post_init_def str_truthy_def ex_defs)
  have f1: "finalize example_env s1 NoneV NoLogger NoneV None 0 initial_world = (Inr (), s1', w1)"
    by (simp add: s1'_def w1_def s1_def run_defs ex_defs)
  have f2: "finalize example_env s2 NoneV NoLogger NoneV None 0 w1 = (Inr (), s2', w2)"
    by (simp add: s2'_def w2_def w1_def s1_def s2_def run_defs ex_defs)
  have c: "cab s1 = Some ''copy''" "cab s2 = Some ''copy''" "''copy'' \<noteq> []"
    by (simp_all add: s1_def s2_def ex_defs)
  have v: "cargo s1' = Some 0" "cargo s2' = Some 1"
          "cargo_name (heap w2 0) = ''s1''" "cargo_name (heap w2 1) = ''s2''"
    by (simp_all add: s1'_def s2'_def w2_def w1_def s1_def s2_def run_defs ex_defs)
  from cargo_copies_independent [OF p1 p2 c f1 order_refl f2] v
  have "cargo_name (heap (set_cargo_name 1 ''renamed'' w2) 0) = ''s1'' \<and>
        cargo_name (heap (set_cargo_name 0 ''renamed'' w2) 1) = ''s2''"
    by auto
  with p1 p2 f1 f2 v show ?thesis by blast
qed

section \<open>Properties of prevalidate\<close>

text \<open>
  C10: when \<^verbatim>\<open>finalize\<close> succeeds and the cargo's prevalidation returns a dictionary,
  \<^verbatim>\<open>prevalidate\<close> stores the dictionary in \<^verbatim>\<open>validated_params\<close>, and then raises a
  \<open>StepValidationError\<close> that names the invalid parameters if there is one, and returns
  the dictionary otherwise. Nothing is asked of the step's skip setting.
\<close>

theorem prevalidate_raises_on_invalid:
  assumes "finalize env self NoneV NoLogger NoneV None 0 w = (Inr (), self1, w1)"
      and "cargo self1 = Some a"
      and "cargo_prevalidate env (heap w1 a) (params self1) sb rt = Inr vp"
  shows "\<exists>w2. prevalidate env self sb rt w =
           (if invalid_params vp \<noteq> [] then
              Inl (StepValidationError
                     (''step '' @ quote (name self1) @ '': '' @ cargo_name (heap w1 a)
                        @ '' has the following invalid parameters: ''
                        @ join_quote (invalid_params vp)) None False)
            else Inr vp,
            self1\<lparr>validated_params := Some vp\<rparr>, w2)"
proof (cases "invalid_params vp = []")
  case True
  then show ?thesis
    by (simp add: prevalidate_def assms Let_def)
next
  case False
  then show ?thesis
    by (simp add: prevalidate_def assms Let_def)
qed

text \<open>
  A witness: with a prevalidation that marks \<^verbatim>\<open>dst\<close> as invalid, the step is refused
  whether its skip is \<^verbatim>\<open>"true"\<close> or unset; with one that accepts the parameters, they are
  returned and stored.
\<close>

theorem prevalidate_raises_on_invalid_witness:
  "fst (prevalidate invalid_env (copy_step\<lparr>skip := Some ''true'', skip_preset := Some True\<rparr>)
          NoSubst False initial_world)
     = Inl (StepValidationError
              (''step 's1': s1 has the following invalid parameters: '' @ quote ''dst'') None False)
   \<and> fst (prevalidate invalid_env copy_step NoSubst False initial_world)
     = Inl (StepValidationError
              (''step 's1': s1 has the following invalid parameters: '' @ quote ''dst'') None False)
   \<and> fst (prevalidate example_env copy_step NoSubst False initial_world)
     = Inr [(''src'', StrV ''a''), (''dst'', StrV ''b''), (''x'', IntV 7)]
   \<and> validated_params (fst (snd (prevalidate example_env copy_step NoSubst False initial_world)))
     = Some [(''src'', StrV ''a''), (''dst'', StrV ''b''), (''x'', IntV 7)]"
proof -
  have one:
    "fst (prevalidate env s NoSubst False initial_world) =
       (if invalid_params vp \<noteq> [] then
          Inl (StepValidationError
                 (''step 's1': s1 has the following invalid parameters: ''
                    @ join_quote (invalid_params vp)) None False)
        else Inr vp) \<and>
     validated_params (fst (snd (prevalidate env s NoSubst False initial_world))) = Some vp"
    if e: "env = invalid_env \<or> env = example_env"
      and s: "s = copy_step \<or> s = copy_step\<lparr>skip := Some ''true'', skip_preset := Some True\<rparr>"
      and vp: "cargo_prevalidate env (copy_cab\<lparr>cargo_name := ''s1'', definition_of := DictV [(''command'', StrV ''cp'')]\<rparr>)
                 [(''src'', StrV ''a''), (''dst'', StrV ''b''), (''x'', IntV 7)] NoSubst False = Inr vp"
    for env s vp
  proof -
    define s1 where "s1 = fst (snd (finalize env s NoneV NoLogger NoneV None 0 initial_world))"
    define w1 where "w1 = snd (snd (finalize env s NoneV NoLogger NoneV None 0 initial_world))"
    have f: "finalize env s NoneV NoLogger NoneV None 0 initial_world = (Inr (), s1, w1)"
      using e s by (auto simp: s1_def w1_def run_defs ex_defs invalid_env_def)
    have c: "cargo s1 = Some 0" "name s1 = ''s1''" "cargo_name (heap w1 0) = ''s1''"
      using e s by (auto simp: s1_def w1_def run_defs ex_defs invalid_env_def)
    have h: "heap w1 0 = copy_cab\<lparr>cargo_name := ''s1'', definition_of := DictV [(''command'', StrV ''cp'')]\<rparr>"
            "params s1 = [(''src'', StrV ''a''), (''dst'', StrV ''b''), (''x'', IntV 7)]"
      using e s by (auto simp: s1_def w1_def run_defs ex_defs invalid_env_def)
    from prevalidate_raises_on_invalid [OF f c(1), of NoSubst False vp] vp h c
    show ?thesis by (auto simp: quote_def)
  qed
  have a: "cargo_prevalidate invalid_env (copy_cab\<lparr>cargo_name := ''s1'', definition_of := DictV [(''command'', StrV ''cp'')]\<rparr>)
                 [(''src'', StrV ''a''), (''dst'', StrV ''b''), (''x'', IntV 7)] NoSubst False
             = Inr [(''src'', StrV ''a''), (''dst'', ErrorV ''not a file''), (''x'', IntV 7)]"
    by (simp add: ex_defs invalid_env_def)
  have b: "cargo_prevalidate example_env (copy_cab\<lparr>cargo_name := ''s1'', definition_of := DictV [(''command'', StrV ''cp'')]\<rparr>)
                 [(''src'', StrV ''a''), (''dst'', StrV ''b''), (''x'', IntV 7)] NoSubst False
             = Inr [(''src'', StrV ''a''), (''dst'', StrV ''b''), (''x'', IntV 7)]"
    by (simp add: ex_defs)
  from one [OF _ _ a, of "copy_step\<lparr>skip := Some ''true'', skip_preset := Some True\<rparr>"]
       one [OF _ _ a, of copy_step] one [OF _ _ b, of copy_step]
  show ?thesis
    by (simp add: invalid_params_def join_quote_def)
qed

section \<open>What a run calls\<close>

lemma bind_cab_frame:
  assumes "bind_cab env s cfg w = (r, s', w')"
  shows "calls w' = calls w \<and> subtasks w' = subtasks w \<and> skip_preset s' = skip_preset s \<and> skip s' = skip s \<and> backend s' = backend s"
  using assms unfolding bind_cab_def allocate_def
  by (auto split: option.splits sum.splits bool.splits)

lemma bind_recipe_frame:
  assumes "bind_recipe env s cfg w = (r, s', w')"
  shows "calls w' = calls w \<and> subtasks w' = subtasks w \<and> skip_preset s' = skip_preset s \<and> skip s' = skip s \<and> backend s' = backend s"
  using assms unfolding bind_recipe_def allocate_def
  by (auto simp: Let_def split: recipe_val.splits pyval.splits sum.splits exc.splits prod.splits if_splits)

lemma finish_finalize_frame:
  assumes "finish_finalize env s a cfg lg lo n w = (r, s', w')"
  shows "calls w' = calls w \<and> subtasks w' = subtasks w \<and> skip_preset s' = skip_preset s \<and> skip s' = skip s \<and> backend s' = backend s"
  using assms unfolding finish_finalize_def
  by (auto simp: Let_def set_cargo_name_def split: sum.splits)

lemma finalize_frame:
  assumes "finalize env s cfg lg lo fq n w = (r, s', w')"
  shows "calls w' = calls w \<and> subtasks w' = subtasks w \<and> skip_preset s' = skip_preset s \<and> skip s' = skip s \<and> backend s' = backend s"
proof (cases "finalized s")
  case True
  with assms show ?thesis by (simp add: finalize_def)
next
  case False
  let ?cfg = "if truthy cfg then cfg else global_config env"
  let ?s2 = "(case fq of None \<Rightarrow> s | Some f \<Rightarrow> s\<lparr>fqname := f\<rparr>)\<lparr>config := ?cfg\<rparr>"
  have s2: "skip_preset ?s2 = skip_preset s" "skip ?s2 = skip s" "backend ?s2 = backend s"
    by (simp_all split: option.splits)
  obtain rb s3 w1 where b: "(if recipe_truthy (recipe ?s2) then bind_recipe env ?s2 ?cfg w
                  else bind_cab env ?s2 ?cfg w) = (rb, s3, w1)"
    by (metis prod_cases3)
  have fr: "calls w1 = calls w \<and> subtasks w1 = subtasks w \<and> skip_preset s3 = skip_preset s \<and> skip s3 = skip s \<and> backend s3 = backend s"
    using b s2 bind_cab_frame [of env ?s2 ?cfg w rb s3 w1] bind_recipe_frame [of env ?s2 ?cfg w rb s3 w1]
    by (auto split: if_splits)
  show ?thesis
  proof (cases rb)
    case (Inl e)
    with assms False b fr show ?thesis by (auto simp: finalize_def Let_def)
  next
    case (Inr a)
    with assms False b have "finish_finalize env s3 a ?cfg lg lo n w1 = (r, s', w')"
      by (auto simp: finalize_def Let_def)
    from finish_finalize_frame [OF this] fr show ?thesis by simp
  qed
qed

lemma prevalidate_frame:
  assumes "prevalidate env s sb rt w = (r, s', w')"
  shows "calls w' = calls w \<and> subtasks w' = subtasks w \<and> skip_preset s' = skip_preset s \<and> skip s' = skip s \<and> backend s' = backend s"
proof -
  obtain rf s1 w1 where f: "finalize env s NoneV NoLogger NoneV None 0 w = (rf, s1, w1)"
    by (metis prod_cases3)
  from finalize_frame [OF f] assms f show ?thesis
    by (auto simp: prevalidate_def Let_def log_msg_def split: sum.splits option.splits if_splits)
qed

lemma ensure_prevalidated_frame:
  assumes "ensure_prevalidated env s w = (r, s', w')"
  shows "calls w' = calls w \<and> subtasks w' = subtasks w \<and> skip_preset s' = skip_preset s \<and> skip s' = skip s \<and> backend s' = backend s"
proof (cases "validated_params s")
  case None
  obtain rp s1 w1 where p: "prevalidate env s (PlainDict (params s)) False w = (rp, s1, w1)"
    by (metis prod_cases3)
  from prevalidate_frame [OF p] assms p None show ?thesis
    by (auto simp: ensure_prevalidated_def split: sum.splits)
next
  case (Some vp)
  with assms show ?thesis by (simp add: ensure_prevalidated_def)
qed

lemma eval_skip_calls:
  assumes "eval_skip env s sb w = (r, w')"
  shows "calls w' = calls w @
           (case (skip_preset s, sb) of
              (None, Some ns) \<Rightarrow>
                 [EvaluateAndSubstitute [(''skip'', case skip s of None \<Rightarrow> NoneV | Some e \<Rightarrow> StrV e)]]
            | _ \<Rightarrow> [])"
  using assms unfolding eval_skip_def
  by (auto simp: Let_def split: option.splits sum.splits)

lemma eval_skip_result:
  "eval_skip env s sb w =
     (fst (eval_skip env s sb w0),
      w\<lparr>calls := calls w @
           (case (skip_preset s, sb) of
              (None, Some ns) \<Rightarrow>
                 [EvaluateAndSubstitute [(''skip'', case skip s of None \<Rightarrow> NoneV | Some e \<Rightarrow> StrV e)]]
            | _ \<Rightarrow> [])\<rparr>)"
  by (simp add: eval_skip_def Let_def split: option.splits sum.splits)

lemma log_summary_calls [simp]: "calls (log_summary env s cg lvl title im w) = calls w"
  by (simp add: log_summary_def log_lines_def log_msg_def)

lemma log_msg_calls [simp]: "calls (log_msg lvl m w) = calls w"
  by (simp add: log_msg_def)

lemma log_validation_error_calls:
  "log_validation_error what lvl e w = (e', w') \<Longrightarrow> calls w' = calls w"
  by (cases e) (auto simp: log_lines_def split: if_splits)

lemma validate_inputs_phase_calls:
  assumes "validate_inputs_phase env s cg skp sb ps w = (r, w')"
  shows "calls w' = calls w"
  using assms unfolding validate_inputs_phase_def
  by (auto simp: Let_def dest: log_validation_error_calls split: sum.splits if_splits prod.splits)

lemma check_inputs_calls:
  assumes "check_inputs s vp sw w = (r, w')"
  shows "calls w' = calls w"
  using assms unfolding check_inputs_def
  by (auto simp: Let_def split: if_splits)

lemma dispatch_calls:
  assumes "dispatch env s cg skp sb batch ps w = (r, w')"
  shows "\<exists>rc. calls w' = calls w @ rc \<and> list_all is_runner_call rc"
  using assms unfolding dispatch_def
  by (auto simp: Let_def split: if_splits cargo_kind.splits sum.splits)

lemma validate_outputs_phase_calls:
  assumes "validate_outputs_phase env s cg skp sb ps w = (r, w')"
  shows "calls w' = calls w"
  using assms unfolding validate_outputs_phase_def
  by (auto simp: Let_def dest: log_validation_error_calls split: sum.splits if_splits prod.splits)

lemma run_outputs_frame:
  assumes "run_outputs env s cg skp sb vp ps w = (r, s', sb', w')"
  shows "calls w' = calls w \<and> skip_preset s' = skip_preset s \<and> skip s' = skip s \<and> backend s' = backend s"
proof -
  obtain ro w1 where v: "validate_outputs_phase env s cg skp sb ps (log_msg DEBUG ''validating outputs'' w) = (ro, w1)"
    by (metis prod.exhaust)
  from validate_outputs_phase_calls [OF v] assms v show ?thesis
    by (auto simp: run_outputs_def Let_def split: sum.splits if_splits)
qed

lemma run_after_inputs_frame:
  assumes "run_after_inputs env s cg skp sb batch vp ps validated sw w = (r, s', sb', w')"
  shows "skip_preset s' = skip_preset s \<and> skip s' = skip s \<and>
         (\<exists>rc. calls w' = calls w @ rc \<and> list_all is_runner_call rc)"
proof -
  let ?s1 = "s\<lparr>validated_params := Some (dict_update vp ps)\<rparr>"
  let ?w1 = "if validated \<and> \<not> truthy skp
             then log_summary env ?s1 cg INFO ''validated inputs'' True w else w"
  let ?sb1 = "if validated \<and> \<not> truthy skp
              then map_option (\<lambda>ns. ns\<lparr>current := ps\<rparr>) sb else sb"
  obtain rc w2 where c: "check_inputs ?s1 (dict_update vp ps) sw ?w1 = (rc, w2)"
    by (metis prod.exhaust)
  have c2: "calls w2 = calls w"
    using check_inputs_calls [OF c] by (simp split: if_splits)
  show ?thesis
  proof (cases rc)
    case (Some e)
    with assms c c2 show ?thesis by (auto simp: run_after_inputs_def Let_def)
  next
    case None
    obtain rd w3 where d: "dispatch env ?s1 cg skp ?sb1 batch ps w2 = (rd, w3)"
      by (metis prod.exhaust)
    from dispatch_calls [OF d] c2 obtain rcs where
      rcs: "calls w3 = calls w @ rcs" "list_all is_runner_call rcs" by auto
    show ?thesis
    proof (cases rd)
      case (Inl e)
      with assms c None d rcs show ?thesis by (auto simp: run_after_inputs_def Let_def)
    next
      case (Inr ps2)
      with assms c None d have
        "run_outputs env ?s1 cg skp ?sb1 (dict_update vp ps) ps2 w3 = (r, s', sb', w')"
        by (auto simp: run_after_inputs_def Let_def)
      from run_outputs_frame [OF this] rcs show ?thesis by auto
    qed
  qed
qed

lemma run_after_inputs_cab:
  assumes "run_after_inputs env s cg skp sb batch vp ps validated sw w = (r, s', sb', w')"
      and "\<not> truthy skp" and "kind cg = Cab"
      and "invalid_params (dict_update vp ps) = []" and "unresolved_params (dict_update vp ps) = []"
      and "backend s = NoneV \<and> cargo_backend cg = NoneV \<longrightarrow> default_backend env = Inr dflt"
  shows "calls w' = calls w @
           [RunCab ps (if backend s \<noteq> NoneV then backend s
                       else if cargo_backend cg \<noteq> NoneV then cargo_backend cg else dflt)]"
proof -
  let ?b = "if backend s \<noteq> NoneV then backend s
            else if cargo_backend cg \<noteq> NoneV then cargo_backend cg else dflt"
  let ?s1 = "s\<lparr>validated_params := Some (dict_update vp ps)\<rparr>"
  let ?w1 = "if validated \<and> \<not> truthy skp
             then log_summary env ?s1 cg INFO ''validated inputs'' True w else w"
  let ?sb1 = "if validated \<and> \<not> truthy skp
              then map_option (\<lambda>ns. ns\<lparr>current := ps\<rparr>) sb else sb"
  have c: "check_inputs ?s1 (dict_update vp ps) sw ?w1 = (None, ?w1)"
    using assms(4,5) by (simp add: check_inputs_def)
  obtain rd w3 where d: "dispatch env ?s1 cg skp ?sb1 batch ps ?w1 = (rd, w3)"
    by (metis prod.exhaust)
  have w3: "calls w3 = calls w @ [RunCab ps ?b]"
    using d assms(2,3,6) unfolding dispatch_def
    by (auto simp: Let_def split: sum.splits if_splits)
  show ?thesis
  proof (cases rd)
    case (Inl e)
    with assms(1) c d w3 show ?thesis by (auto simp: run_after_inputs_def Let_def)
  next
    case (Inr ps2)
    with assms(1) c d have
      "run_outputs env ?s1 cg skp ?sb1 (dict_update vp ps) ps2 w3 = (r, s', sb', w')"
      by (auto simp: run_after_inputs_def Let_def)
    from run_outputs_frame [OF this] w3 show ?thesis by simp
  qed
qed

lemma run_body_calls:
  assumes "run_body env s sb batch w = (r, s', sb', w')"
  shows "skip_preset s' = skip_preset s \<and> skip s' = skip s \<and>
         (\<exists>rc. calls w' = calls w @
                  (case (skip_preset s, sb) of
                     (None, Some ns) \<Rightarrow>
                       [EvaluateAndSubstitute [(''skip'', case skip s of None \<Rightarrow> NoneV | Some e \<Rightarrow> StrV e)]]
                   | _ \<Rightarrow> []) @ rc \<and> list_all is_runner_call rc)"
proof -
  obtain re w1 where e: "eval_skip env s sb w = (re, w1)"
    by (metis prod.exhaust)
  let ?ev = "(case (skip_preset s, sb) of
              (None, Some ns) \<Rightarrow>
                 [EvaluateAndSubstitute [(''skip'', case skip s of None \<Rightarrow> NoneV | Some e \<Rightarrow> StrV e)]]
            | _ \<Rightarrow> [])"
  have ev: "calls w1 = calls w @ ?ev" using eval_skip_calls [OF e] .
  have fin: ?thesis if "calls w' = calls w1" and "s' = s"
    using that ev by (intro conjI exI [of _ "[]"]) simp_all
  show ?thesis
  proof (cases re)
    case (Inl x)
    with assms e have "calls w' = calls w1" "s' = s" by (simp_all add: run_body_def)
    then show ?thesis by (rule fin)
  next
    case (Inr skp)
    show ?thesis
    proof (cases "validated_params s")
      case None
      with assms e Inr have "calls w' = calls w1" "s' = s" by (simp_all add: run_body_def)
      then show ?thesis by (rule fin)
    next
      case (Some vp)
      show ?thesis
      proof (cases "cargo s")
        case None
        with assms e Inr Some have "calls w' = calls w1" "s' = s" by (simp_all add: run_body_def)
        then show ?thesis by (rule fin)
      next
        case (Some a)
        let ?w2 = "log_msg DEBUG (''validating inputs '' @ show_keys env sb) w1"
        obtain rv w3 where v:
          "validate_inputs_phase env s (heap w1 a) skp sb (dict_update vp (params s)) ?w2 = (rv, w3)"
          by (metis prod.exhaust)
        have c3: "calls w3 = calls w1" using validate_inputs_phase_calls [OF v] by simp
        show ?thesis
        proof (cases rv)
          case (Inl x)
          with assms e \<open>re = Inr skp\<close> \<open>validated_params s = Some vp\<close> Some v
          have "w' = w3" "s' = s" by (simp_all add: run_body_def Let_def)
          with c3 show ?thesis by (intro fin) simp_all
        next
          case (Inr res)
          obtain ps1 validated sw where res: "res = (ps1, validated, sw)" by (cases res)
          from assms e \<open>re = Inr skp\<close> \<open>validated_params s = Some vp\<close> Some v Inr res have
            "run_after_inputs env s (heap w1 a) skp sb batch vp ps1 validated sw w3 = (r, s', sb', w')"
            by (simp add: run_body_def Let_def)
          from run_after_inputs_frame [OF this] obtain rc where
            "skip_preset s' = skip_preset s" "skip s' = skip s"
            "calls w' = calls w3 @ rc" "list_all is_runner_call rc" by auto
          with c3 ev show ?thesis
            by (intro conjI exI [of _ rc]) simp_all
        qed
      qed
    qed
  qed
qed

lemma run_body_frame:
  assumes "run_body env s sb batch w = (r, s', sb', w')"
  shows "skip_preset s' = skip_preset s \<and> skip s' = skip s \<and>
         (\<exists>ev rc. calls w' = calls w @ ev @ rc \<and> list_all is_runner_call rc \<and>
                   list_all is_skip_evaluation ev \<and>
                   (skip_preset s \<noteq> None \<or> sb = None \<longrightarrow> ev = []))"
proof -
  let ?ev = "(case (skip_preset s, sb) of
              (None, Some ns) \<Rightarrow>
                 [EvaluateAndSubstitute [(''skip'', case skip s of None \<Rightarrow> NoneV | Some e \<Rightarrow> StrV e)]]
            | _ \<Rightarrow> [])"
  have evp: "list_all is_skip_evaluation ?ev" "skip_preset s \<noteq> None \<or> sb = None \<longrightarrow> ?ev = []"
    by (auto split: option.splits)
  from run_body_calls [OF assms] obtain rc where
    "skip_preset s' = skip_preset s" "skip s' = skip s"
    "calls w' = calls w @ ?ev @ rc" "list_all is_runner_call rc" by blast
  with evp show ?thesis by blast
qed

lemma run_frame:
  assumes "run env s sb batch w = (r, s', sb', w')"
  shows "skip_preset s' = skip_preset s \<and> skip s' = skip s \<and>
         (\<exists>ev rc. calls w' = calls w @ ev @ rc \<and> list_all is_runner_call rc \<and>
                   list_all is_skip_evaluation ev \<and>
                   (skip_preset s \<noteq> None \<or> sb = None \<longrightarrow> ev = []))"
proof -
  obtain rp s1 w1 where p: "ensure_prevalidated env s w = (rp, s1, w1)"
    by (metis prod_cases3)
  note fr = ensure_prevalidated_frame [OF p]
  show ?thesis
  proof (cases rp)
    case (Inl e)
    with assms p fr show ?thesis by (auto simp: run_def)
  next
    case (Inr u)
    obtain rb s2 sb2 w2 where b:
      "run_body env s1 sb batch (w1\<lparr>subtasks := name s1 # subtasks w1\<rparr>) = (rb, s2, sb2, w2)"
      by (metis prod_cases4)
    from assms p Inr b have eq: "s' = s2" "calls w' = calls w2"
      by (auto simp: run_def)
    from run_body_frame [OF b] fr eq show ?thesis by simp
  qed
qed

lemma filter_skip_runner: "list_all is_runner_call rc \<Longrightarrow> filter is_skip_evaluation rc = []"
  by (induction rc) (auto elim: is_runner_call.elims)

lemma filter_runner_skip: "list_all is_skip_evaluation ev \<Longrightarrow> filter is_runner_call ev = []"
  by (induction ev) (auto elim: is_skip_evaluation.elims)

lemma run_preset_no_evaluation:
  assumes "run env s sb batch w = (r, s', sb', w')" and "skip_preset s \<noteq> None \<or> sb = None"
  shows "filter is_skip_evaluation (calls w') = filter is_skip_evaluation (calls w)
         \<and> skip_preset s' = skip_preset s"
  using run_frame [OF assms(1)] assms(2) by (auto simp: filter_skip_runner)

lemma run_many_preset_no_evaluation:
  assumes "skip_preset s \<noteq> None" and "run_many env s ins w = (s', w')"
  shows "filter is_skip_evaluation (calls w') = filter is_skip_evaluation (calls w)
         \<and> skip_preset s' = skip_preset s"
  using assms
proof (induction ins arbitrary: s w)
  case Nil
  then show ?case by simp
next
  case (Cons i ins)
  obtain sb batch where i: "i = (sb, batch)" by (cases i)
  obtain r s1 sb1 w1 where r: "run env s sb batch w = (r, s1, sb1, w1)"
    by (metis prod_cases4)
  from run_preset_no_evaluation [OF r] Cons.prems(1) have
    k: "filter is_skip_evaluation (calls w1) = filter is_skip_evaluation (calls w)"
       "skip_preset s1 = skip_preset s" by auto
  from Cons.prems(2) i r have "run_many env s1 ins w1 = (s', w')" by simp
  from Cons.IH [OF _ this] k Cons.prems(1) show ?case by simp
qed

lemma run_deferred_evaluates:
  assumes "skip_preset s = None" and "validated_params s = Some vp"
      and "run env s (Some ns) batch w = (r, s', sb', w')"
  shows "\<exists>rc. calls w' = calls w @
            EvaluateAndSubstitute [(''skip'', case skip s of None \<Rightarrow> NoneV | Some e \<Rightarrow> StrV e)] # rc
          \<and> list_all is_runner_call rc"
proof -
  obtain rb s2 sb2 w2 where b:
      "run_body env s (Some ns) batch (w\<lparr>subtasks := name s # subtasks w\<rparr>) = (rb, s2, sb2, w2)"
      by (metis prod_cases4)
  from assms b have eq: "calls w' = calls w2"
      by (auto simp: run_def ensure_prevalidated_def)
  from run_body_calls [OF b] assms(1) eq show ?thesis by simp
qed

lemma eval_skip_deferred:
  assumes "skip_preset s = None"
  shows "eval_skip env s (Some ns) w =
     (case evaluate_and_substitute env
             [(''skip'', case skip s of None \<Rightarrow> NoneV | Some e \<Rightarrow> StrV e)] ns (current ns)
             [fqname s] False of
        Inl e \<Rightarrow> Inl e
      | Inr skips \<Rightarrow>
          (case map_of skips ''skip'' of None \<Rightarrow> Inl (KeyError ''skip'') | Some v \<Rightarrow> Inr v),
      w\<lparr>calls := calls w @
           [EvaluateAndSubstitute [(''skip'', case skip s of None \<Rightarrow> NoneV | Some e \<Rightarrow> StrV e)]]\<rparr>)"
  using assms by (simp add: eval_skip_def Let_def split: sum.splits option.splits)

lemma dispatch_runner:
  assumes "dispatch env s cg skp sb batch ps w = (r, w')"
  shows "(truthy skp \<longrightarrow> calls w' = calls w) \<and>
         (\<not> truthy skp \<longrightarrow> (\<forall>p. r = Inr p \<longrightarrow> (\<exists>c. is_runner_call c \<and> calls w' = calls w @ [c])))"
  using assms unfolding dispatch_def
  by (auto simp: Let_def split: if_splits cargo_kind.splits sum.splits)

lemma run_outputs_validated:
  assumes "run_outputs env s cg skp sb vp ps w = (r, s', sb', w')"
  shows "\<forall>p. r = Inr p \<longrightarrow> validated_params s' \<noteq> None"
proof -
  obtain ro w1 where v: "validate_outputs_phase env s cg skp sb ps (log_msg DEBUG ''validating outputs'' w) = (ro, w1)"
    by (metis prod.exhaust)
  from assms v show ?thesis
    by (auto simp: run_outputs_def Let_def split: sum.splits if_splits)
qed

lemma run_after_inputs_runner:
  assumes "run_after_inputs env s cg skp sb batch vp ps validated sw w = (r, s', sb', w')"
  shows "(truthy skp \<longrightarrow> calls w' = calls w) \<and>
         (\<forall>p. r = Inr p \<longrightarrow> validated_params s' \<noteq> None \<and>
               (\<not> truthy skp \<longrightarrow> (\<exists>c. is_runner_call c \<and> calls w' = calls w @ [c])))"
proof -
  let ?s1 = "s\<lparr>validated_params := Some (dict_update vp ps)\<rparr>"
  let ?w1 = "if validated \<and> \<not> truthy skp
             then log_summary env ?s1 cg INFO ''validated inputs'' True w else w"
  let ?sb1 = "if validated \<and> \<not> truthy skp
              then map_option (\<lambda>ns. ns\<lparr>current := ps\<rparr>) sb else sb"
  obtain rc w2 where c: "check_inputs ?s1 (dict_update vp ps) sw ?w1 = (rc, w2)"
    by (metis prod.exhaust)
  have c2: "calls w2 = calls w"
    using check_inputs_calls [OF c] by (simp split: if_splits)
  show ?thesis
  proof (cases rc)
    case (Some e)
    with assms c c2 show ?thesis by (auto simp: run_after_inputs_def Let_def)
  next
    case None
    obtain rd w3 where d: "dispatch env ?s1 cg skp ?sb1 batch ps w2 = (rd, w3)"
      by (metis prod.exhaust)
    note dr = dispatch_runner [OF d]
    show ?thesis
    proof (cases rd)
      case (Inl e)
      with assms c None d dr c2 show ?thesis by (auto simp: run_after_inputs_def Let_def)
    next
      case (Inr ps2)
      with assms c None d have ro:
        "run_outputs env ?s1 cg skp ?sb1 (dict_update vp ps) ps2 w3 = (r, s', sb', w')"
        by (auto simp: run_after_inputs_def Let_def)
      from run_outputs_frame [OF ro] run_outputs_validated [OF ro] dr Inr c2 show ?thesis by auto
    qed
  qed
qed

lemma run_body_runner:
  assumes "run_body env s sb batch w = (r, s', sb', w')"
      and "eval_skip env s sb w = (re, w1)"
  shows "(\<forall>e. re = Inl e \<longrightarrow> r = Inl e \<and> calls w' = calls w1) \<and>
         (\<forall>skp. re = Inr skp \<longrightarrow>
            (truthy skp \<longrightarrow> calls w' = calls w1) \<and>
            (\<forall>p. r = Inr p \<longrightarrow> validated_params s' \<noteq> None \<and>
               (\<not> truthy skp \<longrightarrow> (\<exists>c. is_runner_call c \<and> calls w' = calls w1 @ [c]))))"
proof (cases re)
  case (Inl e)
  with assms show ?thesis by (auto simp: run_body_def)
next
  case (Inr skp)
  show ?thesis
  proof (cases "validated_params s")
    case None
    with assms Inr show ?thesis by (auto simp: run_body_def)
  next
    case (Some vp)
    show ?thesis
    proof (cases "cargo s")
      case None
      with assms Inr Some show ?thesis by (auto simp: run_body_def)
    next
      case (Some a)
      let ?w2 = "log_msg DEBUG (''validating inputs '' @ show_keys env sb) w1"
      obtain rv w3 where v:
        "validate_inputs_phase env s (heap w1 a) skp sb (dict_update vp (params s)) ?w2 = (rv, w3)"
        by (metis prod.exhaust)
      have c3: "calls w3 = calls w1" using validate_inputs_phase_calls [OF v] by simp
      show ?thesis
      proof (cases rv)
        case (Inl x)
        with assms Inr \<open>validated_params s = Some vp\<close> Some v c3 show ?thesis
          by (auto simp: run_body_def Let_def)
      next
        case (Inr res)
        obtain ps1 validated sw where res: "res = (ps1, validated, sw)" by (cases res)
        from assms \<open>re = Inr skp\<close> \<open>validated_params s = Some vp\<close> Some v Inr res have
          "run_after_inputs env s (heap w1 a) skp sb batch vp ps1 validated sw w3 = (r, s', sb', w')"
          by (simp add: run_body_def Let_def)
        from run_after_inputs_runner [OF this] c3 \<open>re = Inr skp\<close> show ?thesis by simp
      qed
    qed
  qed
qed

lemma run_runner:
  assumes "run env t sb batch w = (r, t', sb', w')"
      and "ensure_prevalidated env t w = (Inr (), t1, w1)"
      and "eval_skip env t1 sb (w1\<lparr>subtasks := name t1 # subtasks w1\<rparr>) = (re, w2)"
  shows "(\<forall>e. re = Inl e \<longrightarrow> r = Inl e \<and> calls w' = calls w2) \<and>
         (\<forall>skp. re = Inr skp \<longrightarrow>
            (truthy skp \<longrightarrow> calls w' = calls w2) \<and>
            (\<forall>p. r = Inr p \<longrightarrow> validated_params t' \<noteq> None \<and>
               (\<not> truthy skp \<longrightarrow> (\<exists>c. is_runner_call c \<and> calls w' = calls w2 @ [c]))))"
proof -
  obtain rb s2 sb2 w3 where b:
    "run_body env t1 sb batch (w1\<lparr>subtasks := name t1 # subtasks w1\<rparr>) = (rb, s2, sb2, w3)"
    by (metis prod_cases4)
  from assms(1,2) b have eq: "r = rb" "t' = s2" "calls w' = calls w3"
    by (auto simp: run_def)
  from run_body_runner [OF b assms(3)] eq show ?thesis by simp
qed

lemma run_Inr_prevalidated:
  assumes "run env t sb batch w = (Inr p, t', sb', w')"
  shows "\<exists>t1 w1. ensure_prevalidated env t w = (Inr (), t1, w1)"
proof -
  obtain rp t1 w1 where e: "ensure_prevalidated env t w = (rp, t1, w1)"
    by (metis prod_cases3)
  with assms show ?thesis by (cases rp) (auto simp: run_def)
qed

lemma run_preset_runner:
  assumes "skip_preset t = Some b" and "run env t sb batch w = (r, t', sb', w')"
  shows "(b \<longrightarrow> calls w' = calls w) \<and>
         (\<not> b \<longrightarrow> (\<forall>p. r = Inr p \<longrightarrow> (\<exists>c. is_runner_call c \<and> calls w' = calls w @ [c])))"
proof -
  obtain rp t1 w1 where e: "ensure_prevalidated env t w = (rp, t1, w1)"
    by (metis prod_cases3)
  note fr = ensure_prevalidated_frame [OF e]
  show ?thesis
  proof (cases rp)
    case (Inl x)
    with assms(2) e fr show ?thesis by (auto simp: run_def)
  next
    case (Inr u)
    let ?w = "w1\<lparr>subtasks := name t1 # subtasks w1\<rparr>"
    have ev: "eval_skip env t1 sb ?w = (Inr (BoolV b), ?w)"
      using fr assms(1) by (simp add: eval_skip_def skip_value_def)
    from run_runner [OF assms(2) e [unfolded Inr, simplified] ev] fr show ?thesis by simp
  qed
qed

lemma run_deferred_no_namespace:
  assumes "skip_preset t = None" and "run env t None batch w = (Inr p, t', sb', w')"
  shows "validated_params t' \<noteq> None \<and> (\<exists>c. is_runner_call c \<and> calls w' = calls w @ [c])"
proof -
  from run_Inr_prevalidated [OF assms(2)] obtain t1 w1 where
    e: "ensure_prevalidated env t w = (Inr (), t1, w1)" by blast
  note fr = ensure_prevalidated_frame [OF e]
  let ?w = "w1\<lparr>subtasks := name t1 # subtasks w1\<rparr>"
  have ev: "eval_skip env t1 None ?w = (Inr NoneV, ?w)"
    using fr assms(1) by (simp add: eval_skip_def skip_value_def)
  from run_runner [OF assms(2) e ev] fr show ?thesis by simp
qed

lemma run_deferred_with_namespace:
  assumes "skip_preset t = None" and "validated_params t = Some vp"
      and "run env t (Some ns) batch w = (r, t', sb', w')"
  shows "case evaluate_and_substitute env
               [(''skip'', case skip t of None \<Rightarrow> NoneV | Some e \<Rightarrow> StrV e)] ns (current ns)
               [fqname t] False of
           Inl e \<Rightarrow>
             r = Inl e \<and>
             calls w' = calls w @
               [EvaluateAndSubstitute [(''skip'', case skip t of None \<Rightarrow> NoneV | Some e \<Rightarrow> StrV e)]]
         | Inr skips \<Rightarrow>
             (case map_of skips ''skip'' of
                None \<Rightarrow>
                  r = Inl (KeyError ''skip'') \<and>
                  calls w' = calls w @
                    [EvaluateAndSubstitute [(''skip'', case skip t of None \<Rightarrow> NoneV | Some e \<Rightarrow> StrV e)]]
              | Some v \<Rightarrow>
                  (truthy v \<longrightarrow>
                     calls w' = calls w @
                       [EvaluateAndSubstitute [(''skip'', case skip t of None \<Rightarrow> NoneV | Some e \<Rightarrow> StrV e)]]) \<and>
                  (\<not> truthy v \<longrightarrow>
                     (\<forall>p. r = Inr p \<longrightarrow>
                        (\<exists>c. is_runner_call c \<and>
                             calls w' = calls w @
                               [EvaluateAndSubstitute
                                  [(''skip'', case skip t of None \<Rightarrow> NoneV | Some e \<Rightarrow> StrV e)], c]))))"
proof -
  have e: "ensure_prevalidated env t w = (Inr (), t, w)"
    using assms(2) by (simp add: ensure_prevalidated_def)
  let ?w = "w\<lparr>subtasks := name t # subtasks w\<rparr>"
  note ev = eval_skip_deferred [OF assms(1), of env ns ?w]
  obtain re w2 where r: "eval_skip env t (Some ns) ?w = (re, w2)"
    by (metis prod.exhaust)
  from run_runner [OF assms(3) e r] r ev show ?thesis
    by (auto split: sum.splits option.splits)
qed

section \<open>The skip policy\<close>

text \<open>
  C6: construction turns the tokens \<^verbatim>\<open>True\<close>, \<^verbatim>\<open>true\<close>, \<^verbatim>\<open>1\<close> into the preset
  \<open>True\<close>, the tokens \<^verbatim>\<open>False\<close>, \<^verbatim>\<open>false\<close>, \<^verbatim>\<open>0\<close> into the preset \<open>False\<close>, and
  an unset or empty skip into the preset \<open>False\<close>. A step with a preset never has its
  skip sent to the substitution engine, over any sequence of runs, and keeps its preset;
  its runs follow the preset: with \<open>True\<close> no runner is called, with \<open>False\<close> a run
  that returns has called exactly one runner. A step without a preset that is run without
  a namespace has the skip value \<^verbatim>\<open>None\<close>, which is false: the run makes no call to the
  engine, leaves the step without a preset, and, if it returns, has called exactly one
  runner and left the step prevalidated. Run with a namespace (once prevalidated) the step
  sends its skip expression to the engine, and the answer of the engine decides that run:
  an exception of the engine is the outcome of the run; a true answer means that no runner
  is called; a false answer means that a run that returns has called exactly one runner.
\<close>

theorem skip_evaluation_policy:
  "(post_init raw = Inr s \<longrightarrow>
      (skip raw \<in> {Some ''True'', Some ''true'', Some ''1''} \<longrightarrow> skip_preset s = Some True) \<and>
      (skip raw \<in> {Some ''False'', Some ''false'', Some ''0''} \<longrightarrow> skip_preset s = Some False) \<and>
      (skip raw \<in> {None, Some ''''} \<longrightarrow> skip_preset s = Some False))
   \<and> (skip_preset t \<noteq> None \<and> run_many env t ins w = (t', w') \<longrightarrow>
        filter is_skip_evaluation (calls w') = filter is_skip_evaluation (calls w)
        \<and> skip_preset t' = skip_preset t)
   \<and> (skip_preset t = Some b \<and> run env t sb batch w = (r, t', sb', w') \<longrightarrow>
        (b \<longrightarrow> calls w' = calls w) \<and>
        (\<not> b \<longrightarrow> (\<forall>p. r = Inr p \<longrightarrow> (\<exists>c. is_runner_call c \<and> calls w' = calls w @ [c]))))
   \<and> (skip_preset t = None \<longrightarrow> eval_skip env t None w = (Inr NoneV, w) \<and> \<not> truthy NoneV)
   \<and> (skip_preset t = None \<and> run env t None batch w = (r, t', sb', w') \<longrightarrow>
        skip_preset t' = None
        \<and> filter is_skip_evaluation (calls w') = filter is_skip_evaluation (calls w)
        \<and> (\<forall>p. r = Inr p \<longrightarrow>
               validated_params t' \<noteq> None \<and>
               (\<exists>c. is_runner_call c \<and> calls w' = calls w @ [c])))
   \<and> (skip_preset t = None \<and> validated_params t = Some vp
        \<and> run env t (Some ns) batch w = (r, t', sb', w') \<longrightarrow>
        (\<exists>rc. calls w' = calls w @
                 EvaluateAndSubstitute [(''skip'', case skip t of None \<Rightarrow> NoneV | Some e \<Rightarrow> StrV e)] # rc
              \<and> list_all is_runner_call rc) \<and>
        (case evaluate_and_substitute env
               [(''skip'', case skip t of None \<Rightarrow> NoneV | Some e \<Rightarrow> StrV e)] ns (current ns)
               [fqname t] False of
           Inl e \<Rightarrow>
             r = Inl e \<and>
             calls w' = calls w @
               [EvaluateAndSubstitute [(''skip'', case skip t of None \<Rightarrow> NoneV | Some e \<Rightarrow> StrV e)]]
         | Inr skips \<Rightarrow>
             (case map_of skips ''skip'' of
                None \<Rightarrow>
                  r = Inl (KeyError ''skip'') \<and>
                  calls w' = calls w @
                    [EvaluateAndSubstitute [(''skip'', case skip t of None \<Rightarrow> NoneV | Some e \<Rightarrow> StrV e)]]
              | Some v \<Rightarrow>
                  (truthy v \<longrightarrow>
                     calls w' = calls w @
                       [EvaluateAndSubstitute [(''skip'', case skip t of None \<Rightarrow> NoneV | Some e \<Rightarrow> StrV e)]]) \<and>
                  (\<not> truthy v \<longrightarrow>
                     (\<forall>p. r = Inr p \<longrightarrow>
                        (\<exists>c. is_runner_call c \<and>
                             calls w' = calls w @
                               [EvaluateAndSubstitute
                                  [(''skip'', case skip t of None \<Rightarrow> NoneV | Some e \<Rightarrow> StrV e)], c]))))))"
proof -
  have p1: "post_init raw = Inr s \<longrightarrow>
      (skip raw \<in> {Some ''True'', Some ''true'', Some ''1''} \<longrightarrow> skip_preset s = Some True) \<and>
      (skip raw \<in> {Some ''False'', Some ''false'', Some ''0''} \<longrightarrow> skip_preset s = Some False) \<and>
      (skip raw \<in> {None, Some ''''} \<longrightarrow> skip_preset s = Some False)"
    by (auto simp: post_init_def Let_def split: if_splits)
  have p2: "skip_preset t \<noteq> None \<and> run_many env t ins w = (t', w') \<longrightarrow>
        filter is_skip_evaluation (calls w') = filter is_skip_evaluation (calls w)
        \<and> skip_preset t' = skip_preset t"
    using run_many_preset_no_evaluation [of t env ins w t' w'] by simp
  have p3: "skip_preset t = Some b \<and> run env t sb batch w = (r, t', sb', w') \<longrightarrow>
        (b \<longrightarrow> calls w' = calls w) \<and>
        (\<not> b \<longrightarrow> (\<forall>p. r = Inr p \<longrightarrow> (\<exists>c. is_runner_call c \<and> calls w' = calls w @ [c])))"
    using run_preset_runner [of t b env sb batch w r t' sb' w'] by simp
  have p4: "skip_preset t = None \<longrightarrow> eval_skip env t None w = (Inr NoneV, w) \<and> \<not> truthy NoneV"
    by (simp add: eval_skip_def skip_value_def)
  have p5: "skip_preset t = None \<and> run env t None batch w = (r, t', sb', w') \<longrightarrow>
        skip_preset t' = None
        \<and> filter is_skip_evaluation (calls w') = filter is_skip_evaluation (calls w)
        \<and> (\<forall>p. r = Inr p \<longrightarrow>
               validated_params t' \<noteq> None \<and>
               (\<exists>c. is_runner_call c \<and> calls w' = calls w @ [c]))"
    using run_preset_no_evaluation [of env t None batch w r t' sb' w']
      run_deferred_no_namespace [of t env batch w _ t' sb' w']
    by auto
  have p6: "skip_preset t = None \<and> validated_params t = Some vp
        \<and> run env t (Some ns) batch w = (r, t', sb', w') \<longrightarrow>
        (\<exists>rc. calls w' = calls w @
                 EvaluateAndSubstitute [(''skip'', case skip t of None \<Rightarrow> NoneV | Some e \<Rightarrow> StrV e)] # rc
              \<and> list_all is_runner_call rc)"
    using run_deferred_evaluates [of t vp env ns batch w r t' sb' w'] by simp
  have p7: "skip_preset t = None \<and> validated_params t = Some vp
        \<and> run env t (Some ns) batch w = (r, t', sb', w') \<longrightarrow>
        (case evaluate_and_substitute env
               [(''skip'', case skip t of None \<Rightarrow> NoneV | Some e \<Rightarrow> StrV e)] ns (current ns)
               [fqname t] False of
           Inl e \<Rightarrow>
             r = Inl e \<and>
             calls w' = calls w @
               [EvaluateAndSubstitute [(''skip'', case skip t of None \<Rightarrow> NoneV | Some e \<Rightarrow> StrV e)]]
         | Inr skips \<Rightarrow>
             (case map_of skips ''skip'' of
                None \<Rightarrow>
                  r = Inl (KeyError ''skip'') \<and>
                  calls w' = calls w @
                    [EvaluateAndSubstitute [(''skip'', case skip t of None \<Rightarrow> NoneV | Some e \<Rightarrow> StrV e)]]
              | Some v \<Rightarrow>
                  (truthy v \<longrightarrow>
                     calls w' = calls w @
                       [EvaluateAndSubstitute [(''skip'', case skip t of None \<Rightarrow> NoneV | Some e \<Rightarrow> StrV e)]]) \<and>
                  (\<not> truthy v \<longrightarrow>
                     (\<forall>p. r = Inr p \<longrightarrow>
                        (\<exists>c. is_runner_call c \<and>
                             calls w' = calls w @
                               [EvaluateAndSubstitute
                                  [(''skip'', case skip t of None \<Rightarrow> NoneV | Some e \<Rightarrow> StrV e)], c])))))"
    using run_deferred_with_namespace [of t vp env ns batch w r t' sb' w'] by blast
  from p1 p2 p3 p4 p5 p6 p7 show ?thesis by blast
qed

text \<open>
  A witness: \<^verbatim>\<open>"true"\<close> and the empty string at construction; runs of the step with the
  literal, which call neither the engine nor a runner; a step with a deferred expression,
  run first without a namespace (the task runner is called) and then, from the state this
  run has left, with a namespace: with an engine that answers true the run returns without
  a further runner call, with one that answers false the task runner is called again.
\<close>

theorem skip_evaluation_policy_witness:
  "map_sum id skip_preset (post_init (copy_step\<lparr>skip := Some ''true''\<rparr>)) = Inr (Some True)
   \<and> filter is_skip_evaluation
        (calls (snd (run_many example_env
                       (copy_step\<lparr>skip := Some ''true'', fqname := ''s1'', skip_preset := Some True\<rparr>)
                       [(Some \<lparr>current = [], bindings = []\<rparr>, NoneV), (None, NoneV)]
                       initial_world))) = []
   \<and> calls (snd (snd (snd (run example_env
                  (copy_step\<lparr>skip := Some ''true'', fqname := ''s1'', skip_preset := Some True\<rparr>)
                  None NoneV initial_world)))) = []
   \<and> map_sum id skip_preset (post_init (copy_step\<lparr>skip := Some ''''\<rparr>)) = Inr (Some False)
   \<and> eval_skip example_env (copy_step\<lparr>skip := Some ''{recipe.flag}'', fqname := ''s1''\<rparr>) None initial_world
        = (Inr NoneV, initial_world)
   \<and> (case run example_env (copy_step\<lparr>skip := Some ''{recipe.flag}'', fqname := ''s1''\<rparr>) None NoneV
              initial_world of
        (r1, t1, sb1, w1) \<Rightarrow>
          r1 = Inr [(''src'', StrV ''a''), (''dst'', StrV ''b''), (''x'', IntV 7)] \<and>
          skip_preset t1 = None \<and>
          calls w1 = [RunCab [(''src'', StrV ''a''), (''dst'', StrV ''b''), (''x'', IntV 7)] (StrV ''native'')] \<and>
          fst (run skipping_env t1 (Some \<lparr>current = [], bindings = []\<rparr>) NoneV w1)
            = Inr [(''src'', StrV ''a''), (''dst'', StrV ''b''), (''x'', IntV 7)] \<and>
          calls (snd (snd (snd (run skipping_env t1 (Some \<lparr>current = [], bindings = []\<rparr>) NoneV w1))))
            = [RunCab [(''src'', StrV ''a''), (''dst'', StrV ''b''), (''x'', IntV 7)] (StrV ''native''),
               EvaluateAndSubstitute [(''skip'', StrV ''{recipe.flag}'')]] \<and>
          calls (snd (snd (snd (run example_env t1 (Some \<lparr>current = [], bindings = []\<rparr>) NoneV w1))))
            = [RunCab [(''src'', StrV ''a''), (''dst'', StrV ''b''), (''x'', IntV 7)] (StrV ''native''),
               EvaluateAndSubstitute [(''skip'', StrV ''{recipe.flag}'')],
               RunCab [(''src'', StrV ''a''), (''dst'', StrV ''b''), (''x'', IntV 7)] (StrV ''native'')])"
proof -
  let ?lit = "copy_step\<lparr>skip := Some ''true'', fqname := ''s1'', skip_preset := Some True\<rparr>"
  let ?emp = "copy_step\<lparr>skip := Some '''', fqname := ''s1'', skip_preset := Some False\<rparr>"
  let ?def = "copy_step\<lparr>skip := Some ''{recipe.flag}'', fqname := ''s1''\<rparr>"
  let ?ns = "\<lparr>current = [], bindings = []\<rparr>"
  let ?ps = "[(''src'', StrV ''a''), (''dst'', StrV ''b''), (''x'', IntV 7)]"
  let ?E = "EvaluateAndSubstitute [(''skip'', StrV ''{recipe.flag}'')]"
  have p1: "post_init (copy_step\<lparr>skip := Some ''true''\<rparr>) = Inr ?lit"
    by (simp add: post_init_def str_truthy_def ex_defs)
  have p2: "post_init (copy_step\<lparr>skip := Some ''''\<rparr>) = Inr ?emp"
    by (simp add: post_init_def str_truthy_def ex_defs)
  have d: "skip_preset ?def = None" by (simp add: ex_defs)
  have l: "skip_preset ?lit = Some True" by (simp add: ex_defs)
  obtain tm wm where m: "run_many example_env ?lit [(Some ?ns, NoneV), (None, NoneV)] initial_world = (tm, wm)"
    by (metis prod.exhaust)
  obtain r0 t0 sb0 w0 where r0: "run example_env ?lit None NoneV initial_world = (r0, t0, sb0, w0)"
    by (metis prod_cases4)
  obtain r1 t1 sb1 w1 where r1: "run example_env ?def None NoneV initial_world = (r1, t1, sb1, w1)"
    by (metis prod_cases4)
  obtain r2 t2 sb2 w2 where r2: "run skipping_env t1 (Some ?ns) NoneV w1 = (r2, t2, sb2, w2)"
    by (metis prod_cases4)
  obtain r3 t3 sb3 w3 where r3: "run example_env t1 (Some ?ns) NoneV w1 = (r3, t3, sb3, w3)"
    by (metis prod_cases4)
  have v1: "r1 = Inr ?ps" "skip t1 = Some ''{recipe.flag}''" "fqname t1 = ''s1''"
           "calls w1 = [RunCab ?ps (StrV ''native'')]" "validated_params t1 = Some ?ps"
    using r1 by (auto simp: run_defs ex_defs)
  have v2: "r2 = Inr ?ps"
    using r2 r1 by (auto simp: run_defs ex_defs skipping_env_def)
  have v3: "r3 = Inr ?ps"
    using r3 r1 by (auto simp: run_defs ex_defs)
  note A = skip_evaluation_policy [where raw = "copy_step\<lparr>skip := Some ''true''\<rparr>" and s = ?lit
      and t = ?lit and env = example_env and w = initial_world and t' = tm and w' = wm
      and ins = "[(Some ?ns, NoneV), (None, NoneV)]"]
  note B = skip_evaluation_policy [where t = ?lit and b = True and env = example_env and sb = None
      and batch = NoneV and w = initial_world and r = r0 and t' = t0 and sb' = sb0 and w' = w0]
  note C = skip_evaluation_policy [where raw = "copy_step\<lparr>skip := Some ''''\<rparr>" and s = ?emp
      and t = ?def and env = example_env and w = initial_world and batch = NoneV
      and r = r1 and t' = t1 and sb' = sb1 and w' = w1]
  have t1n: "skip_preset t1 = None" using C d r1 by simp
  note D = skip_evaluation_policy [where t = t1 and env = skipping_env and w = w1
      and batch = NoneV and ns = ?ns and r = r2 and t' = t2 and sb' = sb2 and w' = w2 and vp = ?ps]
  note F = skip_evaluation_policy [where t = t1 and env = example_env and w = w1
      and batch = NoneV and ns = ?ns and r = r3 and t' = t3 and sb' = sb3 and w' = w3 and vp = ?ps]
  have a: "map_sum id skip_preset (post_init (copy_step\<lparr>skip := Some ''true''\<rparr>)) = Inr (Some True)"
    using A p1 by simp
  have b: "filter is_skip_evaluation (calls wm) = []"
    using A l m by (simp add: initial_world_def)
  have b0: "calls w0 = []"
    using B l r0 by (simp add: initial_world_def)
  have c: "map_sum id skip_preset (post_init (copy_step\<lparr>skip := Some ''''\<rparr>)) = Inr (Some False)"
    using C p2 by simp
  have e: "eval_skip example_env ?def None initial_world = (Inr NoneV, initial_world)"
    using C d by simp
  have f: "calls w2 = [RunCab ?ps (StrV ''native''), ?E]"
    using D t1n v1 r2 by (simp add: skipping_env_def example_env_def)
  have "\<exists>c. is_runner_call c \<and> calls w3 = [RunCab ?ps (StrV ''native''), ?E, c]"
    using F t1n v1 v3 r3 by (simp add: example_env_def)
  moreover have "\<exists>rest. calls w3 = rest @ [RunCab ?ps (StrV ''native'')]"
    using r3 r1 by (auto simp: run_defs ex_defs)
  ultimately have g: "calls w3 = [RunCab ?ps (StrV ''native''), ?E, RunCab ?ps (StrV ''native'')]"
    by auto
  from a b b0 c e t1n f g v1 v2 m r0 r1 r2 r3 show ?thesis by simp
qed

section \<open>The dispatch to the task runner\<close>

text \<open>
  C8, as stated, fails at a run that is refused: the step \<^verbatim>\<open>copy\<close> with skip unset is not
  skipped (its skip value is \<open>False\<close>) and its cargo is a cab, but input validation leaves
  \<^verbatim>\<open>dst\<close> unresolved; the run raises \<open>StepValidationError\<close> before the dispatch and the
  task runner is not called at all.
\<close>

theorem run_refused_calls_no_runner:
  "fst (eval_skip unresolved_env (copy_step\<lparr>fqname := ''s1'', skip_preset := Some False\<rparr>) None
          initial_world) = Inr (BoolV False)
   \<and> \<not> truthy (BoolV False)
   \<and> map_option
         (\<lambda>a. kind (heap (snd (snd (snd (run unresolved_env
                    (copy_step\<lparr>fqname := ''s1'', skip_preset := Some False\<rparr>) None NoneV
                    initial_world)))) a))
         (cargo (fst (snd (run unresolved_env
                    (copy_step\<lparr>fqname := ''s1'', skip_preset := Some False\<rparr>) None NoneV
                    initial_world))))
       = Some Cab
   \<and> fst (run unresolved_env (copy_step\<lparr>fqname := ''s1'', skip_preset := Some False\<rparr>) None NoneV
             initial_world)
       = Inl (StepValidationError (''step 's1': invalid inputs: '' @ quote ''dst'') None True)
   \<and> filter is_runner_call
         (calls (snd (snd (snd (run unresolved_env
                    (copy_step\<lparr>fqname := ''s1'', skip_preset := Some False\<rparr>) None NoneV
                    initial_world)))))
       = []"
  by (simp add: run_defs ex_defs unresolved_env_def)

text \<open>
  C8, as amended: take a run of a step whose cargo is a cab, that is prevalidated (before
  or by this run), whose skip evaluates to a false value, and whose input validation
  returns a dictionary that leaves no parameter invalid or unresolved; where neither the
  step nor the cargo names a backend, let the process-wide default backend be readable.
  Then this run calls the task runner exactly once and calls no other runner; the call
  carries the validated parameters and the backend of the step if it has one, else that of
  the cargo if it has one, else the process-wide default.
\<close>

theorem run_invokes_task_runner_once:
  assumes "ensure_prevalidated env self w = (Inr (), self1, w1)"
      and "validated_params self1 = Some vp" and "cargo self1 = Some a"
      and "kind (heap w1 a) = Cab"
      and "fst (eval_skip env self1 sb w1) = Inr skp" and "\<not> truthy skp"
      and "validate_inputs env (heap w1 a) (dict_update vp (params self1)) skp sb = Inr ps"
      and "invalid_params (dict_update vp ps) = []"
      and "unresolved_params (dict_update vp ps) = []"
      and "backend self = NoneV \<and> cargo_backend (heap w1 a) = NoneV
             \<longrightarrow> default_backend env = Inr dflt"
      and "run env self sb batch w = (r, self', sb', w')"
  shows "filter is_runner_call (calls w') =
           filter is_runner_call (calls w) @
             [RunCab ps (if backend self \<noteq> NoneV then backend self
                         else if cargo_backend (heap w1 a) \<noteq> NoneV then cargo_backend (heap w1 a)
                         else dflt)]"
proof -
  let ?ev = "case (skip_preset self1, sb) of
              (None, Some ns) \<Rightarrow>
                 [EvaluateAndSubstitute [(''skip'', case skip self1 of None \<Rightarrow> NoneV | Some e \<Rightarrow> StrV e)]]
            | _ \<Rightarrow> []"
  let ?w1 = "w1\<lparr>subtasks := name self1 # subtasks w1\<rparr>"
  let ?w2 = "?w1\<lparr>calls := calls ?w1 @ ?ev\<rparr>"
  let ?w3 = "log_msg DEBUG (''validating inputs '' @ show_keys env sb) ?w2"
  have fr: "calls w1 = calls w" "backend self1 = backend self"
    using ensure_prevalidated_frame [OF assms(1)] by simp_all
  have e: "eval_skip env self1 sb ?w1 = (Inr skp, ?w2)"
    using eval_skip_result [of env self1 sb ?w1 w1] assms(5) by simp
  have h: "heap ?w2 a = heap w1 a" by simp
  have v: "validate_inputs_phase env self1 (heap w1 a) skp sb (dict_update vp (params self1)) ?w3
             = (Inr (ps, True, False), ?w3)"
    using assms(7) by (simp add: validate_inputs_phase_def)
  obtain rb s2 sb2 w2 where b: "run_body env self1 sb batch ?w1 = (rb, s2, sb2, w2)"
    by (metis prod_cases4)
  from assms(11) assms(1) b have eq: "calls w' = calls w2"
    by (auto simp: run_def)
  from b e assms(2,3) h v have
    "run_after_inputs env self1 (heap w1 a) skp sb batch vp ps True False ?w3 = (rb, s2, sb2, w2)"
    by (simp add: run_body_def Let_def)
  moreover have "backend self1 = NoneV \<and> cargo_backend (heap w1 a) = NoneV
                   \<longrightarrow> default_backend env = Inr dflt"
    using assms(10) fr(2) by simp
  ultimately
  have "calls w2 = calls w @ ?ev @
          [RunCab ps (if backend self \<noteq> NoneV then backend self
                         else if cargo_backend (heap w1 a) \<noteq> NoneV then cargo_backend (heap w1 a)
                         else dflt)]"
    using run_after_inputs_cab [of env self1 "heap w1 a" skp sb batch vp ps True False ?w3 rb s2 sb2 w2 dflt]
      assms(6) assms(4) assms(8) assms(9)
    by (simp add: fr log_msg_def)
  moreover have "filter is_runner_call ?ev = []"
    by (simp split: option.splits)
  ultimately show ?thesis using eq by simp
qed

text \<open>
  A witness: the step \<^verbatim>\<open>copy\<close> with \<^verbatim>\<open>src\<close> and \<^verbatim>\<open>dst\<close>, skip unset, run from
  scratch: the run returns the validated parameters and the only runner call is the task
  runner with these parameters and the default backend \<^verbatim>\<open>native\<close>.
\<close>

theorem run_invokes_task_runner_once_witness:
  "fst (run example_env (copy_step\<lparr>fqname := ''s1'', skip_preset := Some False\<rparr>) None NoneV
          initial_world)
     = Inr [(''src'', StrV ''a''), (''dst'', StrV ''b''), (''x'', IntV 7)]
   \<and> filter is_runner_call
        (calls (snd (snd (snd (run example_env (copy_step\<lparr>fqname := ''s1'', skip_preset := Some False\<rparr>)
                                 None NoneV initial_world)))))
     = [RunCab [(''src'', StrV ''a''), (''dst'', StrV ''b''), (''x'', IntV 7)] (StrV ''native'')]"
proof -
  define s where "s = copy_step\<lparr>fqname := ''s1'', skip_preset := Some False\<rparr>"
  define s1 where "s1 = fst (snd (ensure_prevalidated example_env s initial_world))"
  define w1 where "w1 = snd (snd (ensure_prevalidated example_env s initial_world))"
  let ?ps = "[(''src'', StrV ''a''), (''dst'', StrV ''b''), (''x'', IntV 7)]"
  obtain r s' sb' w' where r: "run example_env s None NoneV initial_world = (r, s', sb', w')"
    by (metis prod_cases4)
  have p: "ensure_prevalidated example_env s initial_world = (Inr (), s1, w1)"
    by (simp add: s1_def w1_def s_def run_defs ex_defs)
  have v: "validated_params s1 = Some ?ps" "cargo s1 = Some 0" "kind (heap w1 0) = Cab"
          "params s1 = ?ps" "backend s = NoneV" "cargo_backend (heap w1 0) = NoneV"
    by (simp_all add: s1_def w1_def s_def run_defs ex_defs)
  have e: "fst (eval_skip example_env s1 None w1) = Inr (BoolV False)"
    by (simp add: s1_def w1_def s_def run_defs ex_defs)
  have vi: "validate_inputs example_env (heap w1 0) (dict_update ?ps (params s1)) (BoolV False) None
              = Inr ?ps"
    by (simp add: v example_env_def)
  have iv: "invalid_params (dict_update ?ps ?ps) = []" "unresolved_params (dict_update ?ps ?ps) = []"
    by (simp_all add: invalid_params_def unresolved_params_def)
  have d: "backend s = NoneV \<and> cargo_backend (heap w1 0) = NoneV
             \<longrightarrow> default_backend example_env = Inr (StrV ''native'')"
    by (simp add: default_backend_def py_getattr_def ex_defs)
  have res: "r = Inr ?ps"
    using r by (simp add: s_def run_defs ex_defs)
  from run_invokes_task_runner_once [OF p v(1) v(2) v(3) e _ vi iv d r] v(5) v(6) res r
  show ?thesis
    by (simp add: s_def [symmetric] initial_world_def)
qed

section \<open>Invalid inputs and the skip attribute\<close>

text \<open>
  With an input validation that leaves \<^verbatim>\<open>dst\<close> unresolved: a step whose skip is unset
  is refused with a \<open>StepValidationError\<close> naming \<^verbatim>\<open>dst\<close>, and no runner is called; a
  step whose skip is \<^verbatim>\<open>"true"\<close> returns, with two warnings, and no runner is called.
\<close>

lemma run_unresolved_inputs_examples:
  "fst (run unresolved_env (copy_step\<lparr>fqname := ''s1'', skip_preset := Some False\<rparr>) None NoneV
          initial_world)
     = Inl (StepValidationError (''step 's1': invalid inputs: '' @ quote ''dst'') None True)
   \<and> calls (snd (snd (snd (run unresolved_env
                  (copy_step\<lparr>fqname := ''s1'', skip_preset := Some False\<rparr>) None NoneV
                  initial_world)))) = []
   \<and> fst (run unresolved_env
             (copy_step\<lparr>skip := Some ''true'', fqname := ''s1'', skip_preset := Some True\<rparr>) None NoneV
             initial_world)
     = Inr [(''src'', StrV ''a''), (''dst'', UnresolvedV ''{recipe.out}''), (''x'', IntV 7)]
   \<and> calls (snd (snd (snd (run unresolved_env
                  (copy_step\<lparr>skip := Some ''true'', fqname := ''s1'', skip_preset := Some True\<rparr>)
                  None NoneV initial_world)))) = []
   \<and> filter (\<lambda>(lvl, m). lvl = WARNING)
         (log (snd (snd (snd (run unresolved_env
                  (copy_step\<lparr>skip := Some ''true'', fqname := ''s1'', skip_preset := Some True\<rparr>)
                  None NoneV initial_world)))))
     = [(WARNING, ''invalid inputs: '' @ quote ''dst''),
        (WARNING, ''since the step was skipped, this is not fatal'')]"
  by (simp add: run_defs ex_defs unresolved_env_def)

text \<open>
  C1, at a failing input: a step constructed with skip \<^verbatim>\<open>"false"\<close> has the preset
  \<open>False\<close>, so it is not skipped. Input validation leaves \<^verbatim>\<open>dst\<close> unresolved. The run
  does not raise: it returns the parameters, \<^verbatim>\<open>dst\<close> is still unresolved in
  \<^verbatim>\<open>validated_params\<close>, and the task runner has been called with the unresolved
  parameter. The test on the invalid inputs reads the attribute \<^verbatim>\<open>self.skip\<close>, the
  non-empty string \<^verbatim>\<open>"false"\<close>, where the dispatch reads the evaluated skip.
\<close>

theorem run_skip_false_dispatches_unresolved:
  "post_init (copy_step\<lparr>skip := Some ''false''\<rparr>)
     = Inr (copy_step\<lparr>skip := Some ''false'', fqname := ''s1'', skip_preset := Some False\<rparr>)
   \<and> fst (run unresolved_env
             (copy_step\<lparr>skip := Some ''false'', fqname := ''s1'', skip_preset := Some False\<rparr>)
             None NoneV initial_world)
     = Inr [(''src'', StrV ''a''), (''dst'', UnresolvedV ''{recipe.out}''), (''x'', IntV 7)]
   \<and> calls (snd (snd (snd (run unresolved_env
                  (copy_step\<lparr>skip := Some ''false'', fqname := ''s1'', skip_preset := Some False\<rparr>)
                  None NoneV initial_world))))
     = [RunCab [(''src'', StrV ''a''), (''dst'', UnresolvedV ''{recipe.out}''), (''x'', IntV 7)]
          (StrV ''native'')]
   \<and> map_option unresolved_params
         (validated_params (fst (snd (run unresolved_env
            (copy_step\<lparr>skip := Some ''false'', fqname := ''s1'', skip_preset := Some False\<rparr>)
            None NoneV initial_world))))
     = Some [''dst'']"
  by (simp add: post_init_def run_defs ex_defs unresolved_env_def)

end
